theory Spec2Isabelle
  imports Main "HOL-Library.Char_ord" "HOL-Library.List_Lexorder"
begin

section \<open>Labels and storage identifiers\<close>

text \<open>
  The routes \<open>add_table\<close> and \<open>edit_table\<close> of \<open>food_webapp_V3.py\<close> derive a storage
  identifier from every display label with the same five lines. Three of the steps are
  methods of Python's \<open>str\<close>, which work on all of Unicode and are not part of the
  source: \<open>s.lower()\<close>, \<open>c.isalnum()\<close> and the white space that \<open>s.strip()\<close> removes.
  They are parameters of the model. \<open>str_lower\<close> is a function of the whole string,
  since \<open>lower\<close> may change the number of characters and looks at the context of a
  character; \<open>str_isalnum\<close> and \<open>str_isspace\<close> classify one character.
\<close>

record python_str =
  str_lower :: "string \<Rightarrow> string"
  str_isalnum :: "char \<Rightarrow> bool"
  str_isspace :: "char \<Rightarrow> bool"

subsection \<open>What the three methods do on ASCII\<close>

definition ascii_upper :: string where
  "ascii_upper = ''ABCDEFGHIJKLMNOPQRSTUVWXYZ''"

definition ascii_lower :: string where
  "ascii_lower = ''abcdefghijklmnopqrstuvwxyz''"

definition ascii_digit :: string where
  "ascii_digit = ''0123456789''"

definition is_ascii :: "char \<Rightarrow> bool" where
  "is_ascii c = (of_char c < (128 :: nat))"

text \<open>\<open>lower\<close> on an ASCII string: the letters \<open>A\<close> to \<open>Z\<close> become \<open>a\<close> to \<open>z\<close>,
  character by character.\<close>

definition ascii_lower_char :: "char \<Rightarrow> char" where
  "ascii_lower_char c =
     (case map_of (zip ascii_upper ascii_lower) c of Some d \<Rightarrow> d | None \<Rightarrow> c)"

text \<open>\<open>isalnum\<close> on an ASCII character: the letters and the digits.\<close>

definition ascii_isalnum :: "char \<Rightarrow> bool" where
  "ascii_isalnum c = (c \<in> set (ascii_lower @ ascii_upper @ ascii_digit))"

text \<open>The ASCII white space of \<open>strip\<close>: tab, line feed, vertical tab, form feed,
  carriage return, the four separators \<open>0x1c\<close> to \<open>0x1f\<close>, and the space.\<close>

definition ascii_isspace :: "char \<Rightarrow> bool" where
  "ascii_isspace c = (of_char c \<in> set [9, 10, 11, 12, 13, 28, 29, 30, 31, 32 :: nat])"

text \<open>All that the theorems assume of Python's three methods is what they do on ASCII
  strings and characters; beyond ASCII they are left open.\<close>

definition ascii_faithful :: "python_str \<Rightarrow> bool" where
  "ascii_faithful py =
     ((\<forall>s. list_all is_ascii s \<longrightarrow> str_lower py s = map ascii_lower_char s)
      \<and> (\<forall>c. is_ascii c \<longrightarrow> str_isalnum py c = ascii_isalnum c)
      \<and> (\<forall>c. is_ascii c \<longrightarrow> str_isspace py c = ascii_isspace c))"

text \<open>The three methods cut down to ASCII: outside ASCII nothing is a letter, a digit
  or white space, and nothing is lowercased. It serves to run the model on ASCII
  inputs, where it does what Python does.\<close>

definition ascii_python :: python_str where
  "ascii_python =
     \<lparr>str_lower = map ascii_lower_char,
      str_isalnum = ascii_isalnum,
      str_isspace = ascii_isspace\<rparr>"

subsection \<open>The derivation\<close>

text \<open>\<open>s.replace(a, b)\<close> for single characters \<open>a\<close> and \<open>b\<close>.\<close>

definition replace_char :: "char \<Rightarrow> char \<Rightarrow> string \<Rightarrow> string" where
  "replace_char a b s = map (\<lambda>c. if c = a then b else c) s"

text \<open>\<open>s.replace(a, '')\<close> for a single character \<open>a\<close>.\<close>

definition remove_char :: "char \<Rightarrow> string \<Rightarrow> string" where
  "remove_char a s = filter (\<lambda>c. c \<noteq> a) s"

text \<open>\<open>'__' in s\<close>.\<close>

fun contains_uu :: "string \<Rightarrow> bool" where
  "contains_uu (a # b # cs) = ((a = CHR ''_'' \<and> b = CHR ''_'') \<or> contains_uu (b # cs))"
| "contains_uu cs = False"

text \<open>\<open>s.replace('__', '_')\<close>: the occurrences are taken from the left and do not
  overlap, so three underscores in a row become two.\<close>

fun replace_uu :: "string \<Rightarrow> string" where
  "replace_uu (a # b # cs) =
     (if a = CHR ''_'' \<and> b = CHR ''_'' then CHR ''_'' # replace_uu cs
      else a # replace_uu (b # cs))"
| "replace_uu cs = cs"

lemma length_replace_uu_le: "length (replace_uu s) \<le> length s"
  by (induction s rule: replace_uu.induct) auto

lemma length_replace_uu_less: "contains_uu s \<Longrightarrow> length (replace_uu s) < length s"
proof (induction s rule: replace_uu.induct)
  case (1 a b cs)
  show ?case
  proof (cases "a = CHR ''_'' \<and> b = CHR ''_''")
    case True
    then show ?thesis
      using length_replace_uu_le [of cs] by simp
  next
    case False
    then show ?thesis
      using 1 by auto
  qed
qed simp_all

text \<open>The loop \<open>while '__' in col_name: col_name = col_name.replace('__', '_')\<close>.\<close>

function collapse_loop :: "string \<Rightarrow> string" where
  "collapse_loop s = (if contains_uu s then collapse_loop (replace_uu s) else s)"
  by pat_completeness auto
termination
  by (relation "measure length") (auto simp: length_replace_uu_less)

declare collapse_loop.simps [simp del]

text \<open>\<open>s.strip('_')\<close>.\<close>

definition strip_char :: "char \<Rightarrow> string \<Rightarrow> string" where
  "strip_char a s = rev (dropWhile (\<lambda>c. c = a) (rev (dropWhile (\<lambda>c. c = a) s)))"

text \<open>\<open>s.strip()\<close>: the white space at both ends goes.\<close>

definition strip :: "python_str \<Rightarrow> string \<Rightarrow> string" where
  "strip py s = rev (dropWhile (str_isspace py) (rev (dropWhile (str_isspace py) s)))"

text \<open>The chain \<^verbatim>\<open>.replace(' ', '_').replace('-', '_').replace('&', '_').replace('(', '_')\<close>
  \<^verbatim>\<open>.replace(')', '_').replace('$', '').replace('/', '_')\<close>, applied left to right.\<close>

definition replace_chain :: "string \<Rightarrow> string" where
  "replace_chain s =
     replace_char CHR ''/'' CHR ''_''
       (remove_char CHR ''$''
         (replace_char CHR '')'' CHR ''_''
           (replace_char CHR ''('' CHR ''_''
             (replace_char CHR ''&'' CHR ''_''
               (replace_char CHR ''-'' CHR ''_''
                 (replace_char CHR '' '' CHR ''_'' s))))))"

text \<open>The body of the loop over \<open>display_columns\<close>, in the source's order:
  \<^verbatim>\<open>col_name = display_col.lower()\<close>, the chain of \<open>replace\<close> calls, the join over the
  characters \<open>c\<close> with \<^verbatim>\<open>c.isalnum() or c == '_'\<close>, the \<open>while\<close> loop and
  \<^verbatim>\<open>col_name.strip('_')\<close>.\<close>

definition column_name :: "python_str \<Rightarrow> string \<Rightarrow> string" where
  "column_name py display_col =
     (let col_name = str_lower py display_col;
          col_name = replace_chain col_name;
          col_name = filter (\<lambda>c. str_isalnum py c \<or> c = CHR ''_'') col_name;
          col_name = collapse_loop col_name
      in strip_char CHR ''_'' col_name)"

subsection \<open>The derivation as the specification words it\<close>

text \<open>Lowercase the label; replace spaces, hyphens, ampersands, parentheses and slashes
  with an underscore; strip the characters that are neither alphanumeric nor an
  underscore; collapse consecutive underscores; trim leading and trailing underscores.
  The specification does not say what lowercasing does to a character or which
  characters are alphanumeric; its two words are read as Python's \<open>lower\<close> and
  \<open>isalnum\<close>.\<close>

definition spec_separator :: "char \<Rightarrow> bool" where
  "spec_separator c = (c \<in> set '' -&()/'')"

fun spec_collapse :: "string \<Rightarrow> string" where
  "spec_collapse (a # b # cs) =
     (if a = CHR ''_'' \<and> b = CHR ''_'' then spec_collapse (b # cs)
      else a # spec_collapse (b # cs))"
| "spec_collapse cs = cs"

definition spec_trim :: "string \<Rightarrow> string" where
  "spec_trim s = rev (dropWhile (\<lambda>c. c = CHR ''_'') (rev (dropWhile (\<lambda>c. c = CHR ''_'') s)))"

definition spec_column_name :: "python_str \<Rightarrow> string \<Rightarrow> string" where
  "spec_column_name py label =
     spec_trim
       (spec_collapse
         (filter (\<lambda>c. str_isalnum py c \<or> c = CHR ''_'')
           (map (\<lambda>c. if spec_separator c then CHR ''_'' else c)
             (str_lower py label))))"

section \<open>The database\<close>

text \<open>
  The program keeps everything in one SQLite file: the catalog \<open>table_settings\<close>, one row
  per user-defined table, and one data table per catalog row. Every column of a data
  table is declared \<open>TEXT\<close>; a cell holds a text or \<open>NULL\<close>. A row carries the \<open>rowid\<close>
  the engine gave it. Rows are kept in \<open>rowid\<close> order, the order in which a \<open>SELECT\<close>
  without \<open>ORDER BY\<close> reads them.

  Identifiers are compared as written; the engine itself ignores the case of ASCII
  letters in a name, which the model leaves out. The source splices \<open>table_id\<close> into its
  SQL text unquoted; the model takes it as a plain table name.
\<close>

datatype sql_value = Null | Text string

type_synonym row = "nat \<times> (string \<times> sql_value) list"

record data_table =
  tbl_fields :: "string list"
  tbl_rows :: "row list"

text \<open>A row of \<open>table_settings\<close>. The columns \<open>columns\<close> and \<open>display_columns\<close> hold
  \<open>json.dumps\<close> of a list of strings and are read back with \<open>json.loads\<close>; the model
  keeps the list.\<close>

record setting =
  table_id :: string
  table_name :: string
  columns :: "string list"
  display_columns :: "string list"
  display_order :: int

text \<open>\<open>table_settings = None\<close>: the catalog table does not exist yet. \<open>order_column\<close>:
  the catalog has its \<open>display_order\<close> column (a database written by an older version
  of the program lacks it).\<close>

record database =
  table_settings :: "setting list option"
  order_column :: bool
  tables :: "string \<rightharpoonup> data_table"

text \<open>The exceptions the program can meet: \<open>sqlite3.IntegrityError\<close>,
  \<open>sqlite3.OperationalError\<close>, and the \<open>TypeError\<close> of subscripting \<open>None\<close>.\<close>

datatype error = IntegrityError | OperationalError | TypeError

subsection \<open>Statements\<close>

text \<open>A statement either raises or gives a value and the database after it. A failed
  statement leaves the database as it was.\<close>

type_synonym 'a statement = "database \<Rightarrow> error + ('a \<times> database)"

type_synonym 'a select = "database \<Rightarrow> error + 'a"

definition value_of :: "(string \<times> sql_value) list \<Rightarrow> string \<Rightarrow> sql_value" where
  "value_of cells f = (case map_of cells f of Some v \<Rightarrow> v | None \<Rightarrow> Null)"

fun max_list :: "int list \<Rightarrow> int option" where
  "max_list [] = None"
| "max_list (x # xs) = (case max_list xs of None \<Rightarrow> Some x | Some m \<Rightarrow> Some (max x m))"

text \<open>A name is taken when a data table or the catalog has it.\<close>

definition table_exists :: "database \<Rightarrow> string \<Rightarrow> bool" where
  "table_exists d name =
     (tables d name \<noteq> None \<or> (name = ''table_settings'' \<and> table_settings d \<noteq> None))"

text \<open>\<^verbatim>\<open>SELECT MAX(display_order) FROM table_settings\<close>, then \<open>cur.fetchone()[0]\<close>.\<close>

definition select_max_display_order :: "int option select" where
  "select_max_display_order d =
     (case table_settings d of
        None \<Rightarrow> Inl OperationalError
      | Some es \<Rightarrow>
          if \<not> order_column d then Inl OperationalError
          else Inr (max_list (map display_order es)))"

text \<open>\<^verbatim>\<open>INSERT INTO table_settings (table_id, table_name, columns, display_columns,\<close>
  \<^verbatim>\<open>display_order) VALUES (?, ?, ?, ?, ?)\<close>; \<open>table_id\<close> is the primary key.\<close>

definition insert_setting :: "setting \<Rightarrow> unit statement" where
  "insert_setting s d =
     (case table_settings d of
        None \<Rightarrow> Inl OperationalError
      | Some es \<Rightarrow>
          if \<not> order_column d then Inl OperationalError
          else if table_id s \<in> set (map table_id es) then Inl IntegrityError
          else Inr ((), d\<lparr>table_settings := Some (es @ [s])\<rparr>))"

text \<open>\<^verbatim>\<open>CREATE TABLE name ([c1] TEXT, [c2] TEXT, ...)\<close>. The engine refuses a name that is
  taken, an empty column list and a repeated column name.\<close>

definition create_data_table :: "string \<Rightarrow> string list \<Rightarrow> unit statement" where
  "create_data_table name cols d =
     (if table_exists d name then Inl OperationalError
      else if cols = [] \<or> \<not> distinct cols then Inl OperationalError
      else Inr ((), d\<lparr>tables := (tables d)(name \<mapsto> \<lparr>tbl_fields = cols, tbl_rows = []\<rparr>)\<rparr>))"

text \<open>\<^verbatim>\<open>CREATE TABLE IF NOT EXISTS name (...)\<close>.\<close>

definition create_data_table_if_not_exists :: "string \<Rightarrow> string list \<Rightarrow> unit statement" where
  "create_data_table_if_not_exists name cols d =
     (if table_exists d name then Inr ((), d) else create_data_table name cols d)"

text \<open>\<^verbatim>\<open>SELECT columns FROM table_settings WHERE table_id = ?\<close>, then \<open>cur.fetchone()\<close>:
  \<open>None\<close> when no row has the key.\<close>

definition select_columns :: "string \<Rightarrow> string list option select" where
  "select_columns tid d =
     (case table_settings d of
        None \<Rightarrow> Inl OperationalError
      | Some es \<Rightarrow> Inr (map_option columns (find (\<lambda>s. table_id s = tid) es)))"

text \<open>\<^verbatim>\<open>UPDATE table_settings SET table_name = ?, columns = ?, display_columns = ?\<close>
  \<^verbatim>\<open>WHERE table_id = ?\<close>.\<close>

definition update_setting ::
  "string \<Rightarrow> string \<Rightarrow> string list \<Rightarrow> string list \<Rightarrow> unit statement" where
  "update_setting tid name cols dcols d =
     (case table_settings d of
        None \<Rightarrow> Inl OperationalError
      | Some es \<Rightarrow>
          Inr ((), d\<lparr>table_settings := Some (map (\<lambda>s. if table_id s = tid
             then s\<lparr>table_name := name, columns := cols, display_columns := dcols\<rparr>
             else s) es)\<rparr>))"

text \<open>The \<open>rowid\<close> the engine gives the next inserted row: one more than the largest.\<close>

definition next_rowid :: "row list \<Rightarrow> nat" where
  "next_rowid rs = Suc (fold max (map fst rs) 0)"

text \<open>The row an \<open>INSERT INTO t (shared) SELECT shared FROM s\<close> writes for one row of
  \<open>s\<close>: the selected values under their names, \<open>NULL\<close> in every other column of \<open>t\<close>.\<close>

definition copied_cells ::
  "string list \<Rightarrow> string list \<Rightarrow> (string \<times> sql_value) list \<Rightarrow> (string \<times> sql_value) list" where
  "copied_cells target_fields shared cells =
     map (\<lambda>f. (f, if f \<in> set shared then value_of cells f else Null)) target_fields"

text \<open>\<^verbatim>\<open>INSERT INTO target ([c1], ...) SELECT [c1], ... FROM source\<close>. Both tables must
  exist and have every named column.\<close>

definition insert_select :: "string \<Rightarrow> string list \<Rightarrow> string \<Rightarrow> unit statement" where
  "insert_select target shared source d =
     (case (tables d target, tables d source) of
        (Some t, Some s) \<Rightarrow>
          if set shared \<subseteq> set (tbl_fields t) \<and> set shared \<subseteq> set (tbl_fields s) then
            let first = next_rowid (tbl_rows t);
                new_rows = zip [first ..< first + length (tbl_rows s)]
                               (map (\<lambda>r. copied_cells (tbl_fields t) shared (snd r)) (tbl_rows s))
            in Inr ((), d\<lparr>tables := (tables d)(target \<mapsto> t\<lparr>tbl_rows := tbl_rows t @ new_rows\<rparr>)\<rparr>)
          else Inl OperationalError
      | _ \<Rightarrow> Inl OperationalError)"

text \<open>\<^verbatim>\<open>DROP TABLE name\<close>. The name is spliced in as it is, so the catalog's own name
  would drop the catalog.\<close>

definition drop_table :: "string \<Rightarrow> unit statement" where
  "drop_table name d =
     (if tables d name \<noteq> None then Inr ((), d\<lparr>tables := (tables d)(name := None)\<rparr>)
      else if name = ''table_settings'' \<and> table_settings d \<noteq> None
        then Inr ((), d\<lparr>table_settings := None\<rparr>)
      else Inl OperationalError)"

text \<open>\<^verbatim>\<open>DROP TABLE IF EXISTS name\<close>.\<close>

definition drop_table_if_exists :: "string \<Rightarrow> unit statement" where
  "drop_table_if_exists name d =
     (if table_exists d name then drop_table name d else Inr ((), d))"

text \<open>\<^verbatim>\<open>ALTER TABLE old RENAME TO new\<close>, for a data table \<open>old\<close>.\<close>

definition rename_table :: "string \<Rightarrow> string \<Rightarrow> unit statement" where
  "rename_table old new d =
     (case tables d old of
        None \<Rightarrow> Inl OperationalError
      | Some t \<Rightarrow>
          if table_exists d new then Inl OperationalError
          else Inr ((), d\<lparr>tables := (tables d)(old := None, new \<mapsto> t)\<rparr>))"

text \<open>\<^verbatim>\<open>DELETE FROM table_settings WHERE table_id = ?\<close>.\<close>

definition delete_setting :: "string \<Rightarrow> unit statement" where
  "delete_setting tid d =
     (case table_settings d of
        None \<Rightarrow> Inl OperationalError
      | Some es \<Rightarrow> Inr ((), d\<lparr>table_settings := Some (filter (\<lambda>s. table_id s \<noteq> tid) es)\<rparr>))"

text \<open>\<^verbatim>\<open>UPDATE table_settings SET display_order = ? WHERE table_id = ?\<close>.\<close>

definition update_display_order :: "int \<Rightarrow> string \<Rightarrow> unit statement" where
  "update_display_order new_order tid d =
     (case table_settings d of
        None \<Rightarrow> Inl OperationalError
      | Some es \<Rightarrow>
          if \<not> order_column d then Inl OperationalError
          else Inr ((), d\<lparr>table_settings := Some (map (\<lambda>s. if table_id s = tid
             then s\<lparr>display_order := new_order\<rparr> else s) es)\<rparr>))"

text \<open>\<^verbatim>\<open>CREATE TABLE IF NOT EXISTS table_settings (...)\<close>. A new catalog has the
  \<open>display_order\<close> column. A data table of that name already takes the name.\<close>

definition create_settings_if_not_exists :: "unit statement" where
  "create_settings_if_not_exists d =
     (if table_exists d ''table_settings'' then Inr ((), d)
      else Inr ((), d\<lparr>table_settings := Some [], order_column := True\<rparr>))"

text \<open>\<^verbatim>\<open>SELECT display_order FROM table_settings LIMIT 1\<close>: only whether it raises
  matters.\<close>

definition select_display_order_probe :: "unit select" where
  "select_display_order_probe d =
     (case table_settings d of
        None \<Rightarrow> Inl OperationalError
      | Some es \<Rightarrow> if order_column d then Inr () else Inl OperationalError)"

text \<open>\<^verbatim>\<open>ALTER TABLE table_settings ADD COLUMN display_order INTEGER DEFAULT 0\<close>: every
  row gets the default.\<close>

definition add_display_order_column :: "unit statement" where
  "add_display_order_column d =
     (case table_settings d of
        None \<Rightarrow> Inl OperationalError
      | Some es \<Rightarrow>
          if order_column d then Inl OperationalError
          else Inr ((), d\<lparr>table_settings := Some (map (\<lambda>s. s\<lparr>display_order := 0\<rparr>) es),
                          order_column := True\<rparr>))"

text \<open>\<^verbatim>\<open>SELECT table_id FROM table_settings ORDER BY table_id\<close>, then \<open>cur.fetchall()\<close>.\<close>

definition select_table_ids :: "string list select" where
  "select_table_ids d =
     (case table_settings d of
        None \<Rightarrow> Inl OperationalError
      | Some es \<Rightarrow> Inr (sort (map table_id es)))"

text \<open>\<^verbatim>\<open>SELECT COUNT(*) FROM table_settings\<close>, then \<open>cur.fetchone()[0]\<close>.\<close>

definition select_count :: "nat select" where
  "select_count d =
     (case table_settings d of
        None \<Rightarrow> Inl OperationalError
      | Some es \<Rightarrow> Inr (length es))"

text \<open>\<^verbatim>\<open>SELECT display_order FROM table_settings WHERE table_id = ?\<close>, then
  \<open>cur.fetchone()\<close>.\<close>

definition select_display_order :: "string \<Rightarrow> int option select" where
  "select_display_order tid d =
     (case table_settings d of
        None \<Rightarrow> Inl OperationalError
      | Some es \<Rightarrow>
          if \<not> order_column d then Inl OperationalError
          else Inr (map_option display_order (find (\<lambda>s. table_id s = tid) es)))"

text \<open>\<^verbatim>\<open>SELECT table_id, display_order FROM table_settings ORDER BY display_order\<close>,
  then \<open>cur.fetchall()\<close>. Rows of equal rank come in the order the catalog stores them.\<close>

definition select_by_display_order :: "(string \<times> int) list select" where
  "select_by_display_order d =
     (case table_settings d of
        None \<Rightarrow> Inl OperationalError
      | Some es \<Rightarrow>
          if \<not> order_column d then Inl OperationalError
          else Inr (sort_key snd (map (\<lambda>s. (table_id s, display_order s)) es)))"

text \<open>\<^verbatim>\<open>SELECT * FROM table_settings ORDER BY display_order, table_id\<close>, then
  \<open>cur.fetchall()\<close>.\<close>

definition select_all_settings :: "setting list select" where
  "select_all_settings d =
     (case table_settings d of
        None \<Rightarrow> Inl OperationalError
      | Some es \<Rightarrow>
          if \<not> order_column d then Inl OperationalError
          else Inr (sort_key display_order (sort_key table_id es)))"

subsection \<open>Connections and transactions\<close>

text \<open>
  \<open>sqlite3.connect\<close> opens the file. The module begins a transaction before an
  \<open>INSERT\<close>, \<open>UPDATE\<close> or \<open>DELETE\<close> when none is open; every other statement runs in
  the transaction that is open, or commits by itself when none is (the source uses
  f-strings, so it runs on a Python whose \<open>sqlite3\<close> no longer commits before a
  \<open>CREATE\<close>, \<open>DROP\<close> or \<open>ALTER\<close>). \<open>commit\<close> writes the pending changes to the file,
  \<open>rollback\<close> discards them, and \<open>close\<close> leaves the file with what was committed.

  \<open>committed\<close> is the file, \<open>working\<close> is the database as the connection sees it, and
  \<open>executed\<close> counts the calls the connection has made to the engine. A call may fail
  for a reason of the engine's own (the disk is full, the file is locked): the
  parameter \<open>fault\<close> of every operation names the call, by its number on the
  connection, at which the engine raises \<open>sqlite3.OperationalError\<close>, if any.
\<close>

record connection =
  committed :: database
  working :: database
  in_transaction :: bool
  executed :: nat

datatype kind = DML | DDL

type_synonym 'a action = "connection \<Rightarrow> (error + 'a) \<times> connection"

definition get_db_connection :: "database \<Rightarrow> connection" where
  "get_db_connection db =
     \<lparr>committed = db, working = db, in_transaction = False, executed = 0\<rparr>"

text \<open>\<open>cur.execute\<close> of a statement that changes the database.\<close>

definition execute :: "nat option \<Rightarrow> kind \<Rightarrow> unit statement \<Rightarrow> unit action" where
  "execute fault k st c =
     (let c1 = c\<lparr>executed := Suc (executed c)\<rparr> in
      if fault = Some (executed c) then (Inl OperationalError, c1)
      else
        let c2 = c1\<lparr>in_transaction := (in_transaction c \<or> k = DML)\<rparr> in
        case st (working c) of
          Inl e \<Rightarrow> (Inl e, c2)
        | Inr (x, d) \<Rightarrow>
            (Inr x, c2\<lparr>working := d,
                       committed := (if in_transaction c2 then committed c else d)\<rparr>))"

text \<open>\<open>cur.execute\<close> of a \<open>SELECT\<close> and the fetch that follows.\<close>

definition query :: "nat option \<Rightarrow> 'a select \<Rightarrow> 'a action" where
  "query fault q c =
     (let c1 = c\<lparr>executed := Suc (executed c)\<rparr> in
      if fault = Some (executed c) then (Inl OperationalError, c1)
      else case q (working c) of
          Inl e \<Rightarrow> (Inl e, c1)
        | Inr x \<Rightarrow> (Inr x, c1))"

definition commit :: "nat option \<Rightarrow> unit action" where
  "commit fault c =
     (let c1 = c\<lparr>executed := Suc (executed c)\<rparr> in
      if fault = Some (executed c) then (Inl OperationalError, c1)
      else (Inr (), c1\<lparr>committed := working c, in_transaction := False\<rparr>))"

definition rollback :: "connection \<Rightarrow> connection" where
  "rollback c = c\<lparr>working := committed c, in_transaction := False\<rparr>"

definition close :: "connection \<Rightarrow> database" where
  "close c = committed c"

text \<open>Sequencing: an exception ends the block, the connection stays as it is.\<close>

definition and_then :: "'a action \<Rightarrow> ('a \<Rightarrow> 'b action) \<Rightarrow> 'b action" where
  "and_then m f c = (case m c of (Inl e, c') \<Rightarrow> (Inl e, c') | (Inr x, c') \<Rightarrow> f x c')"

definition return :: "'a \<Rightarrow> 'a action" where
  "return x c = (Inr x, c)"

definition raise :: "error \<Rightarrow> 'a action" where
  "raise e c = (Inl e, c)"

text \<open>The frame shared by \<open>create_table\<close>, \<open>update_table\<close>, \<open>delete_table\<close> and
  \<open>update_table_order\<close>:
  \<^verbatim>\<open>conn = get_db_connection(); try: body  except Exception as e: conn.rollback(); raise e\<close>
  \<^verbatim>\<open>finally: conn.close()\<close>.
  The result is what the call returns or raises, and the file after the call.\<close>

definition try_rollback_close :: "'a action \<Rightarrow> database \<Rightarrow> (error + 'a) \<times> database" where
  "try_rollback_close body db =
     (case body (get_db_connection db) of
        (Inr x, c) \<Rightarrow> (Inr x, close c)
      | (Inl e, c) \<Rightarrow> (Inl e, close (rollback c)))"

section \<open>The schema operations\<close>

text \<open>Python's \<open>max_order or -1\<close>: the right operand when the left one is \<open>None\<close> or
  zero.\<close>

definition or_else :: "int option \<Rightarrow> int \<Rightarrow> int" where
  "or_else v d = (case v of None \<Rightarrow> d | Some n \<Rightarrow> if n = 0 then d else n)"

subsection \<open>\<open>create_table\<close>\<close>

definition create_table_body ::
  "nat option \<Rightarrow> string \<Rightarrow> string \<Rightarrow> string list \<Rightarrow> string list \<Rightarrow> bool action" where
  "create_table_body fault tid name cols dcols =
     and_then (query fault select_max_display_order) (\<lambda>max_order.
     let next_order = or_else max_order (- 1) + 1 in
     and_then (execute fault DML (insert_setting
        \<lparr>table_id = tid, table_name = name, columns = cols, display_columns = dcols,
         display_order = next_order\<rparr>)) (\<lambda>_.
     and_then (execute fault DDL (create_data_table tid cols)) (\<lambda>_.
     and_then (commit fault) (\<lambda>_.
     return True))))"

definition create_table ::
  "nat option \<Rightarrow> string \<Rightarrow> string \<Rightarrow> string list \<Rightarrow> string list \<Rightarrow> database
     \<Rightarrow> (error + bool) \<times> database" where
  "create_table fault tid name cols dcols =
     try_rollback_close (create_table_body fault tid name cols dcols)"

subsection \<open>\<open>update_table\<close>\<close>

text \<open>The block under \<^verbatim>\<open>if set(columns) != set(old_columns):\<close>. The new table is built
  under the name \<open>table_id_temp\<close>, the columns found in both lists are copied when there
  is at least one, the old table is dropped and the new one takes its name.\<close>

definition restructure :: "nat option \<Rightarrow> string \<Rightarrow> string list \<Rightarrow> string list \<Rightarrow> unit action" where
  "restructure fault tid cols old_columns =
     (let temp_table = tid @ ''_temp'' in
      and_then (execute fault DDL (create_data_table temp_table cols)) (\<lambda>_.
      let common_columns = filter (\<lambda>col. col \<in> set old_columns) cols in
      and_then (if common_columns \<noteq> []
                then execute fault DML (insert_select temp_table common_columns tid)
                else return ()) (\<lambda>_.
      and_then (execute fault DDL (drop_table tid)) (\<lambda>_.
      execute fault DDL (rename_table temp_table tid)))))"

definition update_table_body ::
  "nat option \<Rightarrow> string \<Rightarrow> string \<Rightarrow> string list \<Rightarrow> string list \<Rightarrow> bool action" where
  "update_table_body fault tid name cols dcols =
     and_then (query fault (select_columns tid)) (\<lambda>fetched.
     case fetched of
       None \<Rightarrow> raise TypeError
     | Some old_columns \<Rightarrow>
         and_then (execute fault DML (update_setting tid name cols dcols)) (\<lambda>_.
         and_then (if set cols \<noteq> set old_columns
                   then restructure fault tid cols old_columns
                   else return ()) (\<lambda>_.
         and_then (commit fault) (\<lambda>_.
         return True))))"

definition update_table ::
  "nat option \<Rightarrow> string \<Rightarrow> string \<Rightarrow> string list \<Rightarrow> string list \<Rightarrow> database
     \<Rightarrow> (error + bool) \<times> database" where
  "update_table fault tid name cols dcols =
     try_rollback_close (update_table_body fault tid name cols dcols)"

subsection \<open>\<open>delete_table\<close>\<close>

definition delete_table_body :: "nat option \<Rightarrow> string \<Rightarrow> bool action" where
  "delete_table_body fault tid =
     and_then (execute fault DML (delete_setting tid)) (\<lambda>_.
     and_then (execute fault DDL (drop_table_if_exists tid)) (\<lambda>_.
     and_then (commit fault) (\<lambda>_.
     return True)))"

definition delete_table :: "nat option \<Rightarrow> string \<Rightarrow> database \<Rightarrow> (error + bool) \<times> database" where
  "delete_table fault tid = try_rollback_close (delete_table_body fault tid)"

subsection \<open>\<open>update_table_order\<close>\<close>

text \<open>\<open>table_orders\<close> is the dictionary of the request, read in the order of its items.\<close>

fun update_orders :: "nat option \<Rightarrow> (string \<times> int) list \<Rightarrow> unit action" where
  "update_orders fault [] = return ()"
| "update_orders fault ((tid, new_order) # rest) =
     and_then (execute fault DML (update_display_order new_order tid)) (\<lambda>_.
     update_orders fault rest)"

definition update_table_order_body :: "nat option \<Rightarrow> (string \<times> int) list \<Rightarrow> bool action" where
  "update_table_order_body fault table_orders =
     and_then (update_orders fault table_orders) (\<lambda>_.
     and_then (commit fault) (\<lambda>_.
     return True))"

definition update_table_order ::
  "nat option \<Rightarrow> (string \<times> int) list \<Rightarrow> database \<Rightarrow> (error + bool) \<times> database" where
  "update_table_order fault table_orders =
     try_rollback_close (update_table_order_body fault table_orders)"

subsection \<open>\<open>get_tables_config\<close>\<close>

text \<open>The dictionary the function builds, as the list of its items in insertion order:
  the catalog by \<open>display_order\<close>, then by \<open>table_id\<close>. The function has no handler, so
  an exception leaves it.\<close>

definition get_tables_config :: "database \<Rightarrow> error + (string \<times> setting) list" where
  "get_tables_config db =
     (case query None select_all_settings (get_db_connection db) of
        (Inl e, c) \<Rightarrow> Inl e
      | (Inr found, c) \<Rightarrow> Inr (map (\<lambda>s. (table_id s, s)) found))"

subsection \<open>\<open>ensure_pantry_first\<close>\<close>

text \<open>The loop \<^verbatim>\<open>for table in tables: if table['table_id'] != 'pantry': ...\<close> with its
  counter \<open>new_order\<close>.\<close>

fun renumber_others :: "nat option \<Rightarrow> int \<Rightarrow> (string \<times> int) list \<Rightarrow> unit action" where
  "renumber_others fault new_order [] = return ()"
| "renumber_others fault new_order ((tid, old_order) # rest) =
     (if tid \<noteq> ''pantry'' then
        and_then (execute fault DML (update_display_order new_order tid)) (\<lambda>_.
        renumber_others fault (new_order + 1) rest)
      else renumber_others fault new_order rest)"

definition ensure_pantry_first_body :: "nat option \<Rightarrow> unit action" where
  "ensure_pantry_first_body fault =
     and_then (query fault (select_display_order ''pantry'')) (\<lambda>pantry_result.
     case pantry_result of
       None \<Rightarrow> return ()
     | Some pantry_order \<Rightarrow>
         if pantry_order \<noteq> 0 then
           and_then (query fault select_by_display_order) (\<lambda>found.
           and_then (execute fault DML (update_display_order 0 ''pantry'')) (\<lambda>_.
           and_then (renumber_others fault 1 found) (\<lambda>_.
           commit fault)))
         else return ())"

text \<open>\<^verbatim>\<open>try: body  except Exception as e: print(...)  finally: conn.close()\<close>: nothing is
  raised, and what was not committed is lost.\<close>

definition ensure_pantry_first :: "nat option \<Rightarrow> database \<Rightarrow> database" where
  "ensure_pantry_first fault db =
     (case ensure_pantry_first_body fault (get_db_connection db) of (outcome, c) \<Rightarrow> close c)"

subsection \<open>\<open>init_database\<close>\<close>

text \<open>The two loops over \<open>existing_tables\<close> of the branch for an old catalog: the first
  numbers \<open>pantry\<close>, the second the others, with one counter.\<close>

fun number_pantry :: "nat option \<Rightarrow> int \<Rightarrow> string list \<Rightarrow> int action" where
  "number_pantry fault order [] = return order"
| "number_pantry fault order (tid # rest) =
     (if tid = ''pantry'' then
        and_then (execute fault DML (update_display_order order tid)) (\<lambda>_.
        number_pantry fault (order + 1) rest)
      else number_pantry fault order rest)"

fun number_others :: "nat option \<Rightarrow> int \<Rightarrow> string list \<Rightarrow> int action" where
  "number_others fault order [] = return order"
| "number_others fault order (tid # rest) =
     (if tid \<noteq> ''pantry'' then
        and_then (execute fault DML (update_display_order order tid)) (\<lambda>_.
        number_others fault (order + 1) rest)
      else number_others fault order rest)"

text \<open>\<^verbatim>\<open>try: SELECT display_order ...  except sqlite3.OperationalError: ...\<close>.\<close>

definition ensure_order_column :: "nat option \<Rightarrow> unit action" where
  "ensure_order_column fault c =
     (case query fault select_display_order_probe c of
        (Inr u, c1) \<Rightarrow> (Inr (), c1)
      | (Inl OperationalError, c1) \<Rightarrow>
          and_then (execute fault DDL add_display_order_column) (\<lambda>_.
          and_then (query fault select_table_ids) (\<lambda>existing_tables.
          and_then (number_pantry fault 0 existing_tables) (\<lambda>order.
          and_then (number_others fault order existing_tables) (\<lambda>_.
          return ())))) c1
      | (Inl e, c1) \<Rightarrow> (Inl e, c1))"

text \<open>The list \<open>default_tables\<close>.\<close>

definition default_tables :: "setting list" where
  "default_tables =
     [\<lparr>table_id = ''pantry'', table_name = ''Pantry'',
       columns = [''item'', ''dateofpurchase'', ''amount''],
       display_columns = [''Item'', ''Date of Purchase'', ''Amount''],
       display_order = 0\<rparr>,
      \<lparr>table_id = ''basement_freezer'', table_name = ''Basement Freezer'',
       columns = [''item'', ''dateofpurchase'', ''weight'', ''amount''],
       display_columns = [''Item'', ''Date of Purchase'', ''Weight'', ''Amount''],
       display_order = 1\<rparr>]"

text \<open>The loop over \<open>default_tables\<close>: the catalog row, then the data table.\<close>

fun insert_defaults :: "nat option \<Rightarrow> setting list \<Rightarrow> unit action" where
  "insert_defaults fault [] = return ()"
| "insert_defaults fault (s # rest) =
     and_then (execute fault DML (insert_setting s)) (\<lambda>_.
     and_then (execute fault DDL
        (create_data_table_if_not_exists (table_id s) (columns s))) (\<lambda>_.
     insert_defaults fault rest))"

definition init_database_body :: "nat option \<Rightarrow> unit action" where
  "init_database_body fault =
     and_then (execute fault DDL create_settings_if_not_exists) (\<lambda>_.
     and_then (ensure_order_column fault) (\<lambda>_.
     and_then (query fault select_count) (\<lambda>n.
     and_then (if n = 0 then insert_defaults fault default_tables else return ()) (\<lambda>_.
     commit fault))))"

text \<open>\<open>init_database\<close> has no handler: an exception leaves it with the connection
  still open, and the file keeps what was committed. Otherwise it closes the
  connection and calls \<open>ensure_pantry_first\<close>, which opens its own. \<open>fault\<close> counts the
  calls on the first connection and \<open>fault'\<close> those on the second.\<close>

definition init_database ::
  "nat option \<Rightarrow> nat option \<Rightarrow> database \<Rightarrow> (error + unit) \<times> database" where
  "init_database fault fault' db =
     (case init_database_body fault (get_db_connection db) of
        (Inl e, c) \<Rightarrow> (Inl e, close c)
      | (Inr u, c) \<Rightarrow> (Inr (), ensure_pantry_first fault' (close c)))"

section \<open>The routes that create and edit a table\<close>

text \<open>\<open>s.split(',')\<close>.\<close>

fun split_comma :: "string \<Rightarrow> string list" where
  "split_comma [] = [[]]"
| "split_comma (c # cs) =
     (if c = CHR '','' then [] # split_comma cs
      else case split_comma cs of
             w # ws \<Rightarrow> (c # w) # ws
           | [] \<Rightarrow> [[c]])"

text \<open>What the route flashes before it redirects to the settings page.\<close>

datatype flash =
    All_fields_required
  | Must_match
  | Created_successfully string
  | Updated_successfully string
  | Error_creating error
  | Error_updating error

text \<open>The three form fields are \<open>request.form.get(..., '')\<close>; a missing field is the
  empty string. The whole route is inside \<^verbatim>\<open>try: ... except Exception as e: flash(...)\<close>.
  \<open>py\<close> stands for Python's string methods.\<close>

definition add_table ::
  "python_str \<Rightarrow> nat option \<Rightarrow> string \<Rightarrow> string \<Rightarrow> string \<Rightarrow> database \<Rightarrow> flash \<times> database" where
  "add_table py fault form_table_id form_table_name display_columns_str db =
     (let tid = strip py form_table_id;
          name = strip py form_table_name
      in if tid = [] \<or> name = [] \<or> display_columns_str = [] then (All_fields_required, db)
         else
           let dcols = map (strip py) (split_comma display_columns_str);
               cols = map (column_name py) dcols
           in if length cols \<noteq> length dcols then (Must_match, db)
              else case create_table fault tid name cols dcols db of
                     (Inr ok, db') \<Rightarrow> (Created_successfully name, db')
                   | (Inl e, db') \<Rightarrow> (Error_creating e, db'))"

definition edit_table ::
  "python_str \<Rightarrow> nat option \<Rightarrow> string \<Rightarrow> string \<Rightarrow> string \<Rightarrow> database \<Rightarrow> flash \<times> database" where
  "edit_table py fault form_table_id form_table_name display_columns_str db =
     (let tid = strip py form_table_id;
          name = strip py form_table_name
      in if tid = [] \<or> name = [] \<or> display_columns_str = [] then (All_fields_required, db)
         else
           let dcols = map (strip py) (split_comma display_columns_str);
               cols = map (column_name py) dcols
           in if length cols \<noteq> length dcols then (Must_match, db)
              else case update_table fault tid name cols dcols db of
                     (Inr ok, db') \<Rightarrow> (Updated_successfully name, db')
                   | (Inl e, db') \<Rightarrow> (Error_updating e, db'))"

section \<open>Reading the state\<close>

text \<open>The columns the catalog holds for a table.\<close>

definition catalog_columns :: "database \<Rightarrow> string \<Rightarrow> string list option" where
  "catalog_columns d tid =
     (case table_settings d of
        None \<Rightarrow> None
      | Some es \<Rightarrow> map_option columns (find (\<lambda>s. table_id s = tid) es))"

section \<open>Example states\<close>

text \<open>A database before the first start of the program.\<close>

definition empty_database :: database where
  "empty_database = \<lparr>table_settings = None, order_column = False, tables = Map.empty\<rparr>"

text \<open>A catalog with \<open>pantry\<close> and a table \<open>fridge\<close> of two columns that holds one row.\<close>

definition pantry_setting :: setting where
  "pantry_setting =
     \<lparr>table_id = ''pantry'', table_name = ''Pantry'',
      columns = [''item'', ''dateofpurchase'', ''amount''],
      display_columns = [''Item'', ''Date of Purchase'', ''Amount''],
      display_order = 0\<rparr>"

definition fridge_setting :: setting where
  "fridge_setting =
     \<lparr>table_id = ''fridge'', table_name = ''Fridge'',
      columns = [''item'', ''amount''],
      display_columns = [''Item'', ''Amount''],
      display_order = 1\<rparr>"

definition milk_row :: row where
  "milk_row = (1, [(''item'', Text ''milk''), (''amount'', Text ''1'')])"

definition fridge_database :: database where
  "fridge_database =
     \<lparr>table_settings = Some [pantry_setting, fridge_setting],
      order_column = True,
      tables = [''pantry'' \<mapsto> \<lparr>tbl_fields = [''item'', ''dateofpurchase'', ''amount''], tbl_rows = []\<rparr>,
                ''fridge'' \<mapsto> \<lparr>tbl_fields = [''item'', ''amount''], tbl_rows = [milk_row]\<rparr>]\<rparr>"

text \<open>The catalog after the first start and the deletion of \<open>basement_freezer\<close>: only
  \<open>pantry\<close>, at rank 0.\<close>

definition pantry_database :: database where
  "pantry_database =
     \<lparr>table_settings = Some [pantry_setting],
      order_column = True,
      tables = [''pantry'' \<mapsto> \<lparr>tbl_fields = [''item'', ''dateofpurchase'', ''amount''], tbl_rows = []\<rparr>]\<rparr>"

text \<open>The table \<open>fridge\<close> with a third column and a dated row.\<close>

definition dated_fridge_setting :: setting where
  "dated_fridge_setting =
     \<lparr>table_id = ''fridge'', table_name = ''Fridge'',
      columns = [''item'', ''amount'', ''expiration_date''],
      display_columns = [''Item'', ''Amount'', ''Expiration Date''],
      display_order = 1\<rparr>"

definition dated_milk_row :: row where
  "dated_milk_row =
     (1, [(''item'', Text ''milk''), (''amount'', Text ''1''),
          (''expiration_date'', Text ''2025-06-30'')])"

definition dated_fridge_database :: database where
  "dated_fridge_database =
     \<lparr>table_settings = Some [pantry_setting, dated_fridge_setting],
      order_column = True,
      tables = [''pantry'' \<mapsto> \<lparr>tbl_fields = [''item'', ''dateofpurchase'', ''amount''], tbl_rows = []\<rparr>,
                ''fridge'' \<mapsto> \<lparr>tbl_fields = [''item'', ''amount'', ''expiration_date''],
                               tbl_rows = [dated_milk_row]\<rparr>]\<rparr>"

section \<open>Unfolding a run on a given state\<close>

lemmas statement_defs =
  select_max_display_order_def insert_setting_def create_data_table_def
  create_data_table_if_not_exists_def select_columns_def update_setting_def next_rowid_def
  copied_cells_def insert_select_def drop_table_def drop_table_if_exists_def rename_table_def
  delete_setting_def update_display_order_def create_settings_if_not_exists_def
  select_display_order_probe_def add_display_order_column_def select_table_ids_def
  select_count_def select_display_order_def select_by_display_order_def
  select_all_settings_def table_exists_def value_of_def

lemmas action_defs =
  get_db_connection_def execute_def query_def commit_def rollback_def close_def
  and_then_def return_def raise_def try_rollback_close_def Let_def set_eq_subset

lemmas example_defs =
  empty_database_def pantry_setting_def fridge_setting_def milk_row_def fridge_database_def
  pantry_database_def dated_fridge_setting_def dated_milk_row_def dated_fridge_database_def

section \<open>Notions used in the proofs\<close>

text \<open>\<open>keeps m\<close>: run inside a transaction, \<open>m\<close> stays inside it and writes nothing to
  the file. \<open>opens m\<close>: \<open>m\<close> writes nothing to the file and, when it returns, a
  transaction is open. \<open>finishes m\<close>: run inside a transaction, \<open>m\<close> writes nothing to
  the file when it raises. \<open>atomic m\<close>: \<open>m\<close> writes nothing to the file when it raises.\<close>

definition keeps :: "'a action \<Rightarrow> bool" where
  "keeps m = (\<forall>c r c'. m c = (r, c') \<longrightarrow> in_transaction c \<longrightarrow>
     committed c' = committed c \<and> in_transaction c')"

definition opens :: "'a action \<Rightarrow> bool" where
  "opens m = (\<forall>c r c'. m c = (r, c') \<longrightarrow>
     committed c' = committed c \<and> (\<forall>x. r = Inr x \<longrightarrow> in_transaction c'))"

definition finishes :: "'a action \<Rightarrow> bool" where
  "finishes m = (\<forall>c e c'. m c = (Inl e, c') \<longrightarrow> in_transaction c \<longrightarrow>
     committed c' = committed c)"

definition atomic :: "'a action \<Rightarrow> bool" where
  "atomic m = (\<forall>c e c'. m c = (Inl e, c') \<longrightarrow> committed c' = committed c)"

text \<open>The rows the migration writes for the rows of the old table \<open>s\<close>: none when no
  column is shared, else one per old row, numbered from 1.\<close>

definition migrated_rows :: "string list \<Rightarrow> string list \<Rightarrow> data_table \<Rightarrow> row list" where
  "migrated_rows cols shared s =
     (if shared = [] then []
      else zip [1 ..< 1 + length (tbl_rows s)]
               (map (\<lambda>r. copied_cells cols shared (snd r)) (tbl_rows s)))"

text \<open>The string begins with an underscore.\<close>

definition starts_u :: "string \<Rightarrow> bool" where
  "starts_u s = (case s of [] \<Rightarrow> False | b # _ \<Rightarrow> b = CHR ''_'')"

section \<open>Reasoning about actions\<close>

lemma and_then_Inr:
  assumes "and_then m f c = (Inr y, c'')"
  obtains x c' where "m c = (Inr x, c')" and "f x c' = (Inr y, c'')"
  using assms by (auto simp: and_then_def split: prod.splits sum.splits)

lemma and_then_Inl:
  assumes "and_then m f c = (Inl e, c'')"
  obtains "m c = (Inl e, c'')" | x c' where "m c = (Inr x, c')" and "f x c' = (Inl e, c'')"
  using assms by (auto simp: and_then_def split: prod.splits sum.splits)

lemma execute_Inr:
  assumes "execute fault k st c = (Inr x, c')"
  shows "st (working c) = Inr ((), working c')"
    and "in_transaction c' = (in_transaction c \<or> k = DML)"
    and "in_transaction c' \<Longrightarrow> committed c' = committed c"
  using assms by (auto simp: execute_def Let_def split: if_splits sum.splits)

lemma execute_committed:
  assumes "execute fault k st c = (r, c')" and "in_transaction c \<or> k = DML"
  shows "committed c' = committed c"
  using assms by (auto simp: execute_def Let_def split: if_splits sum.splits)

lemma execute_in_transaction:
  assumes "execute fault k st c = (r, c')" and "in_transaction c"
  shows "in_transaction c'"
  using assms by (auto simp: execute_def Let_def split: if_splits sum.splits)

lemma query_Inr:
  assumes "query fault q c = (Inr x, c')"
  shows "q (working c) = Inr x" and "working c' = working c"
  using assms by (auto simp: query_def Let_def split: if_splits sum.splits)

lemma query_frame:
  assumes "query fault q c = (r, c')"
  shows "committed c' = committed c" and "in_transaction c' = in_transaction c"
    and "working c' = working c"
  using assms by (auto simp: query_def Let_def split: if_splits sum.splits)

lemma commit_Inr:
  assumes "commit fault c = (Inr x, c')"
  shows "committed c' = working c" and "working c' = working c"
  using assms by (auto simp: commit_def Let_def split: if_splits)

lemma commit_Inl:
  assumes "commit fault c = (Inl e, c')"
  shows "committed c' = committed c"
  using assms by (auto simp: commit_def Let_def split: if_splits)

subsection \<open>What a block leaves in the file\<close>

lemma keeps_execute: "keeps (execute fault k st)"
  unfolding keeps_def using execute_committed execute_in_transaction by blast

lemma keeps_query: "keeps (query fault q)"
  unfolding keeps_def using query_frame by metis

lemma keeps_return: "keeps (return x)"
  by (simp add: keeps_def return_def)

lemma keeps_raise: "keeps (raise e)"
  by (simp add: keeps_def raise_def)

lemma keeps_and_then:
  assumes "keeps m" and "\<And>x. keeps (f x)"
  shows "keeps (and_then m f)"
  unfolding keeps_def
proof (intro allI impI)
  fix c r c'
  assume run: "and_then m f c = (r, c')" and tx: "in_transaction c"
  obtain r1 c1 where m: "m c = (r1, c1)" by (cases "m c")
  from assms(1) m tx have c1: "committed c1 = committed c" "in_transaction c1"
    unfolding keeps_def by blast+
  show "committed c' = committed c \<and> in_transaction c'"
  proof (cases r1)
    case (Inl e)
    with run m c1 show ?thesis by (simp add: and_then_def)
  next
    case (Inr x)
    with run m have "f x c1 = (r, c')" by (simp add: and_then_def)
    with assms(2) [of x] c1 show ?thesis unfolding keeps_def by metis
  qed
qed

lemma keeps_if: "keeps m \<Longrightarrow> keeps n \<Longrightarrow> keeps (if b then m else n)"
  by simp

lemma opens_execute_DML: "opens (execute fault DML st)"
  unfolding opens_def
  using execute_committed [where k = DML] execute_Inr(2) [where k = DML] by blast

lemma opens_and_then:
  assumes "opens m" and "\<And>x. keeps (f x)"
  shows "opens (and_then m f)"
  unfolding opens_def
proof (intro allI impI)
  fix c r c'
  assume run: "and_then m f c = (r, c')"
  obtain r1 c1 where m: "m c = (r1, c1)" by (cases "m c")
  from assms(1) m have c1: "committed c1 = committed c" "\<And>x. r1 = Inr x \<Longrightarrow> in_transaction c1"
    unfolding opens_def by blast+
  show "committed c' = committed c \<and> (\<forall>x. r = Inr x \<longrightarrow> in_transaction c')"
  proof (cases r1)
    case (Inl e)
    with run m c1 show ?thesis by (auto simp: and_then_def)
  next
    case (Inr x)
    with run m have "f x c1 = (r, c')" by (simp add: and_then_def)
    with assms(2) [of x] c1(1) c1(2) [OF Inr] show ?thesis unfolding keeps_def by metis
  qed
qed

lemma finishes_commit: "finishes (and_then (commit fault) (\<lambda>_. return x))"
  unfolding finishes_def
  by (auto simp: and_then_def return_def split: prod.splits sum.splits dest: commit_Inl)

lemma finishes_and_then:
  assumes "keeps m" and "\<And>x. finishes (f x)"
  shows "finishes (and_then m f)"
  unfolding finishes_def
proof (intro allI impI)
  fix c e c'
  assume run: "and_then m f c = (Inl e, c')" and tx: "in_transaction c"
  obtain r1 c1 where m: "m c = (r1, c1)" by (cases "m c")
  from assms(1) m tx have c1: "committed c1 = committed c" "in_transaction c1"
    unfolding keeps_def by blast+
  show "committed c' = committed c"
  proof (cases r1)
    case (Inl e1)
    with run m c1 show ?thesis by (simp add: and_then_def)
  next
    case (Inr x)
    with run m have "f x c1 = (Inl e, c')" by (simp add: and_then_def)
    with assms(2) [of x] c1 show ?thesis unfolding finishes_def by metis
  qed
qed

lemma atomic_opens_then:
  assumes "opens m" and "\<And>x. finishes (f x)"
  shows "atomic (and_then m f)"
  unfolding atomic_def
proof (intro allI impI)
  fix c e c'
  assume run: "and_then m f c = (Inl e, c')"
  obtain r1 c1 where m: "m c = (r1, c1)" by (cases "m c")
  from assms(1) m have c1: "committed c1 = committed c" "\<And>x. r1 = Inr x \<Longrightarrow> in_transaction c1"
    unfolding opens_def by blast+
  show "committed c' = committed c"
  proof (cases r1)
    case (Inl e1)
    with run m c1 show ?thesis by (simp add: and_then_def)
  next
    case (Inr x)
    with run m have "f x c1 = (Inl e, c')" by (simp add: and_then_def)
    with assms(2) [of x] c1(1) c1(2) [OF Inr] show ?thesis unfolding finishes_def by metis
  qed
qed

lemma atomic_query_then:
  assumes "\<And>x. atomic (f x)"
  shows "atomic (and_then (query fault q) f)"
  unfolding atomic_def
proof (intro allI impI)
  fix c e c'
  assume run: "and_then (query fault q) f c = (Inl e, c')"
  obtain r1 c1 where m: "query fault q c = (r1, c1)" by (cases "query fault q c")
  from query_frame(1) [OF m] have c1: "committed c1 = committed c" .
  show "committed c' = committed c"
  proof (cases r1)
    case (Inl e1)
    with run m c1 show ?thesis by (simp add: and_then_def)
  next
    case (Inr x)
    with run m have "f x c1 = (Inl e, c')" by (simp add: and_then_def)
    with assms [of x] c1 show ?thesis unfolding atomic_def by metis
  qed
qed

lemma atomic_raise: "atomic (raise e)"
  by (simp add: atomic_def raise_def)

lemma try_rollback_close_atomic:
  assumes "atomic body" and "try_rollback_close body db = (Inl e, db')"
  shows "db' = db"
proof -
  obtain r c where run: "body (get_db_connection db) = (r, c)"
    by (cases "body (get_db_connection db)")
  with assms(2) obtain e' where r: "r = Inl e'" and db': "db' = close (rollback c)"
    by (cases r) (auto simp: try_rollback_close_def)
  from assms(1) run r have "committed c = committed (get_db_connection db)"
    unfolding atomic_def by blast
  with db' show ?thesis
    by (simp add: close_def rollback_def get_db_connection_def)
qed

section \<open>A failed schema operation changes nothing\<close>

lemma atomic_create_table_body: "atomic (create_table_body fault tid name cols dcols)"
  unfolding create_table_body_def Let_def
  by (intro atomic_query_then atomic_opens_then opens_execute_DML finishes_and_then
      keeps_execute finishes_commit)

lemma keeps_restructure: "keeps (restructure fault tid cols old_columns)"
  unfolding restructure_def Let_def
  by (intro keeps_and_then keeps_if keeps_execute keeps_return)

lemma atomic_update_table_body: "atomic (update_table_body fault tid name cols dcols)"
  unfolding update_table_body_def
proof (rule atomic_query_then)
  fix fetched :: "string list option"
  show "atomic (case fetched of
          None \<Rightarrow> raise TypeError
        | Some old_columns \<Rightarrow>
            and_then (execute fault DML (update_setting tid name cols dcols)) (\<lambda>_.
            and_then (if set cols \<noteq> set old_columns
                      then restructure fault tid cols old_columns
                      else return ()) (\<lambda>_.
            and_then (commit fault) (\<lambda>_.
            return True))))"
  proof (cases fetched)
    case None
    then show ?thesis by (simp add: atomic_raise)
  next
    case (Some old_columns)
    have "atomic (and_then (execute fault DML (update_setting tid name cols dcols)) (\<lambda>_.
            and_then (if set cols \<noteq> set old_columns
                      then restructure fault tid cols old_columns
                      else return ()) (\<lambda>_.
            and_then (commit fault) (\<lambda>_.
            return True))))"
      by (intro atomic_opens_then opens_execute_DML finishes_and_then keeps_if
          keeps_restructure keeps_return finishes_commit)
    with Some show ?thesis by simp
  qed
qed

lemma atomic_delete_table_body: "atomic (delete_table_body fault tid)"
  unfolding delete_table_body_def
  by (intro atomic_opens_then opens_execute_DML finishes_and_then keeps_execute finishes_commit)

lemma create_table_failed:
  "create_table fault tid name cols dcols db = (Inl e, db') \<Longrightarrow> db' = db"
  unfolding create_table_def
  by (rule try_rollback_close_atomic [OF atomic_create_table_body])

lemma update_table_failed:
  "update_table fault tid name cols dcols db = (Inl e, db') \<Longrightarrow> db' = db"
  unfolding update_table_def
  by (rule try_rollback_close_atomic [OF atomic_update_table_body])

lemma delete_table_failed:
  "delete_table fault tid db = (Inl e, db') \<Longrightarrow> db' = db"
  unfolding delete_table_def
  by (rule try_rollback_close_atomic [OF atomic_delete_table_body])

text \<open>
  \<^bold>\<open>C1.\<close> \<open>create_table\<close>, \<open>update_table\<close> and \<open>delete_table\<close> are all-or-nothing:
  whenever a call raises, whatever the statement at which the engine failed (the copy
  into the temporary table included), the database after the call is the database
  before it: the catalog, every data table with its name, columns and rows, and no
  temporary table added.
\<close>

theorem schema_operations_all_or_nothing:
  "(create_table fault tid name cols dcols db = (Inl e, db') \<longrightarrow> db' = db)
   \<and> (update_table fault tid name cols dcols db = (Inl e, db') \<longrightarrow> db' = db)
   \<and> (delete_table fault tid db = (Inl e, db') \<longrightarrow> db' = db)"
proof (intro conjI impI)
  assume "create_table fault tid name cols dcols db = (Inl e, db')"
  then show "db' = db" by (rule create_table_failed)
next
  assume "update_table fault tid name cols dcols db = (Inl e, db')"
  then show "db' = db" by (rule update_table_failed)
next
  assume "delete_table fault tid db = (Inl e, db')"
  then show "db' = db" by (rule delete_table_failed)
qed

text \<open>The engine fails at the copy (the fourth call of \<open>update_table\<close>), \<open>create_table\<close>
  meets a key that is taken, and the engine fails at the \<open>DROP\<close> of \<open>delete_table\<close>.\<close>

theorem schema_operations_all_or_nothing_witness:
  "update_table (Some 3) ''fridge'' ''Fridge'' [''item'', ''amount'', ''expiration_date'']
     [''Item'', ''Amount'', ''Expiration Date''] fridge_database
     = (Inl OperationalError, fridge_database)
   \<and> create_table None ''fridge'' ''Fridge'' [''item''] [''Item''] fridge_database
     = (Inl IntegrityError, fridge_database)
   \<and> delete_table (Some 1) ''fridge'' fridge_database = (Inl OperationalError, fridge_database)"
proof -
  let ?u = "update_table (Some 3) ''fridge'' ''Fridge'' [''item'', ''amount'', ''expiration_date'']
     [''Item'', ''Amount'', ''Expiration Date''] fridge_database"
  let ?c = "create_table None ''fridge'' ''Fridge'' [''item''] [''Item''] fridge_database"
  let ?d = "delete_table (Some 1) ''fridge'' fridge_database"
  have fu: "fst ?u = Inl OperationalError"
    by (simp add: update_table_def update_table_body_def restructure_def action_defs
        statement_defs example_defs)
  then have u: "?u = (Inl OperationalError, snd ?u)"
    by (metis prod.collapse)
  have su: "snd ?u = fridge_database"
    by (rule schema_operations_all_or_nothing [THEN conjunct2, THEN conjunct1, THEN mp, OF u])
  have fc: "fst ?c = Inl IntegrityError"
    by (simp add: create_table_def create_table_body_def or_else_def action_defs
        statement_defs example_defs)
  then have c: "?c = (Inl IntegrityError, snd ?c)"
    by (metis prod.collapse)
  have sc: "snd ?c = fridge_database"
    by (rule schema_operations_all_or_nothing [THEN conjunct1, THEN mp, OF c])
  have fd: "fst ?d = Inl OperationalError"
    by (simp add: delete_table_def delete_table_body_def action_defs statement_defs
        example_defs)
  then have d: "?d = (Inl OperationalError, snd ?d)"
    by (metis prod.collapse)
  have sd: "snd ?d = fridge_database"
    by (rule schema_operations_all_or_nothing [THEN conjunct2, THEN conjunct2, THEN mp, OF d])
  have "?u = (Inl OperationalError, fridge_database)"
    using u unfolding su .
  moreover have "?c = (Inl IntegrityError, fridge_database)"
    using c unfolding sc .
  moreover have "?d = (Inl OperationalError, fridge_database)"
    using d unfolding sd .
  ultimately show ?thesis by (intro conjI)
qed

section \<open>What a successful \<open>update_table\<close> leaves\<close>

lemma restructure_Inr:
  assumes "restructure fault tid cols old c = (Inr u, c')"
  shows "\<exists>da db dc.
    create_data_table (tid @ ''_temp'') cols (working c) = Inr ((), da)
    \<and> (if filter (\<lambda>col. col \<in> set old) cols \<noteq> []
        then insert_select (tid @ ''_temp'') (filter (\<lambda>col. col \<in> set old) cols) tid da
               = Inr ((), db)
        else db = da)
    \<and> drop_table tid db = Inr ((), dc)
    \<and> rename_table (tid @ ''_temp'') tid dc = Inr ((), working c')"
proof -
  let ?temp = "tid @ ''_temp''"
  let ?common = "filter (\<lambda>col. col \<in> set old) cols"
  from assms obtain u1 c1 where
    s1: "execute fault DDL (create_data_table ?temp cols) c = (Inr u1, c1)" and
    r1: "and_then (if ?common \<noteq> [] then execute fault DML (insert_select ?temp ?common tid)
                   else return ())
           (\<lambda>_. and_then (execute fault DDL (drop_table tid))
             (\<lambda>_. execute fault DDL (rename_table ?temp tid))) c1 = (Inr u, c')"
    unfolding restructure_def Let_def by (rule and_then_Inr)
  from r1 obtain u2 c2 where
    s2: "(if ?common \<noteq> [] then execute fault DML (insert_select ?temp ?common tid)
          else return ()) c1 = (Inr u2, c2)" and
    r2: "and_then (execute fault DDL (drop_table tid))
           (\<lambda>_. execute fault DDL (rename_table ?temp tid)) c2 = (Inr u, c')"
    by (rule and_then_Inr)
  from r2 obtain u3 c3 where
    s3: "execute fault DDL (drop_table tid) c2 = (Inr u3, c3)" and
    s4: "execute fault DDL (rename_table ?temp tid) c3 = (Inr u, c')"
    by (rule and_then_Inr)
  have e1: "create_data_table ?temp cols (working c) = Inr ((), working c1)"
    by (rule execute_Inr(1) [OF s1])
  have e2: "if ?common \<noteq> [] then insert_select ?temp ?common tid (working c1) = Inr ((), working c2)
            else working c2 = working c1"
  proof (cases "?common \<noteq> []")
    case True
    with s2 have "execute fault DML (insert_select ?temp ?common tid) c1 = (Inr u2, c2)" by simp
    from execute_Inr(1) [OF this] True show ?thesis by simp
  next
    case False
    with s2 show ?thesis by (simp add: return_def)
  qed
  have e3: "drop_table tid (working c2) = Inr ((), working c3)"
    by (rule execute_Inr(1) [OF s3])
  have e4: "rename_table ?temp tid (working c3) = Inr ((), working c')"
    by (rule execute_Inr(1) [OF s4])
  from e1 e2 e3 e4 show ?thesis by blast
qed

lemma temp_name_differs: "tid @ ''_temp'' \<noteq> tid"
  by simp

lemma create_data_table_Inr:
  assumes "create_data_table name cols d = Inr ((), d')"
  shows "tables d name = None" and "cols \<noteq> []" and "distinct cols"
    and "d' = d\<lparr>tables := (tables d)(name \<mapsto> \<lparr>tbl_fields = cols, tbl_rows = []\<rparr>)\<rparr>"
  using assms by (auto simp: create_data_table_def table_exists_def split: if_splits)

lemma insert_select_Inr:
  assumes "insert_select target shared source d = Inr ((), d')"
  obtains t s where "tables d target = Some t" and "tables d source = Some s"
    and "set shared \<subseteq> set (tbl_fields s)"
    and "d' = d\<lparr>tables := (tables d)(target \<mapsto> t\<lparr>tbl_rows := tbl_rows t @
           zip [next_rowid (tbl_rows t) ..< next_rowid (tbl_rows t) + length (tbl_rows s)]
               (map (\<lambda>r. copied_cells (tbl_fields t) shared (snd r)) (tbl_rows s))\<rparr>)\<rparr>"
  using assms
  by (auto simp: insert_select_def Let_def split: option.splits if_splits)

lemma drop_table_Inr:
  assumes "drop_table name d = Inr ((), d')"
  shows "tables d' = (tables d)(name := None)"
  using assms by (auto simp: drop_table_def split: if_splits)

lemma rename_table_Inr:
  assumes "rename_table old new d = Inr ((), d')"
  obtains t where "tables d old = Some t" and "tables d new = None"
    and "tables d' = (tables d)(old := None, new \<mapsto> t)"
  using assms by (auto simp: rename_table_def table_exists_def split: option.splits if_splits)

text \<open>The data tables after a successful migration: the table \<open>tid\<close> is replaced, every
  other name holds what it held.\<close>

lemma restructure_tables:
  assumes "restructure fault tid cols old c = (Inr u, c')"
  shows "distinct cols" and "cols \<noteq> []"
    and "filter (\<lambda>col. col \<in> set old) cols \<noteq> [] \<Longrightarrow>
           \<exists>s. tables (working c) tid = Some s
             \<and> set (filter (\<lambda>col. col \<in> set old) cols) \<subseteq> set (tbl_fields s)"
    and "tables (working c') = (tables (working c))(tid \<mapsto>
           \<lparr>tbl_fields = cols,
            tbl_rows = migrated_rows cols (filter (\<lambda>col. col \<in> set old) cols)
                         (the (tables (working c) tid))\<rparr>)"
proof -
  let ?temp = "tid @ ''_temp''"
  let ?common = "filter (\<lambda>col. col \<in> set old) cols"
  let ?d = "working c"
  let ?new = "\<lparr>tbl_fields = cols, tbl_rows = migrated_rows cols ?common (the (tables ?d tid))\<rparr>"
  from restructure_Inr [OF assms] obtain da db dc where
    e1: "create_data_table ?temp cols ?d = Inr ((), da)" and
    e2: "if ?common \<noteq> [] then insert_select ?temp ?common tid da = Inr ((), db) else db = da" and
    e3: "drop_table tid db = Inr ((), dc)" and
    e4: "rename_table ?temp tid dc = Inr ((), working c')"
    by blast
  note c1 = create_data_table_Inr [OF e1]
  show "distinct cols" and "cols \<noteq> []" using c1 by simp_all
  have da_temp: "tables da ?temp = Some \<lparr>tbl_fields = cols, tbl_rows = []\<rparr>"
    and da_tid: "tables da tid = tables ?d tid"
    using c1(4) temp_name_differs [of tid] by simp_all
  have db_tables: "tables db = (tables ?d)(?temp \<mapsto> ?new)"
    and shared: "?common \<noteq> [] \<longrightarrow> (\<exists>s. tables ?d tid = Some s \<and> set ?common \<subseteq> set (tbl_fields s))"
  proof -
    show "tables db = (tables ?d)(?temp \<mapsto> ?new)"
    proof (cases "?common \<noteq> []")
      case True
      with e2 have "insert_select ?temp ?common tid da = Inr ((), db)" by simp
      then obtain t s where t: "tables da ?temp = Some t" and s: "tables da tid = Some s"
        and db: "db = da\<lparr>tables := (tables da)(?temp \<mapsto> t\<lparr>tbl_rows := tbl_rows t @
           zip [next_rowid (tbl_rows t) ..< next_rowid (tbl_rows t) + length (tbl_rows s)]
               (map (\<lambda>r. copied_cells (tbl_fields t) ?common (snd r)) (tbl_rows s))\<rparr>)\<rparr>"
        by (rule insert_select_Inr)
      from t da_temp have t_eq: "t = \<lparr>tbl_fields = cols, tbl_rows = []\<rparr>" by simp
      from s da_tid have s_eq: "tables ?d tid = Some s" by simp
      show ?thesis
        using True by (simp add: db t_eq s_eq c1(4) migrated_rows_def next_rowid_def)
    next
      case False
      with e2 have "db = da" by simp
      with False show ?thesis by (simp add: c1(4) migrated_rows_def)
    qed
    show "?common \<noteq> [] \<longrightarrow> (\<exists>s. tables ?d tid = Some s \<and> set ?common \<subseteq> set (tbl_fields s))"
    proof
      assume "?common \<noteq> []"
      with e2 have "insert_select ?temp ?common tid da = Inr ((), db)" by simp
      then obtain t s where "tables da tid = Some s" and "set ?common \<subseteq> set (tbl_fields s)"
        by (rule insert_select_Inr)
      with da_tid show "\<exists>s. tables ?d tid = Some s \<and> set ?common \<subseteq> set (tbl_fields s)"
        by metis
    qed
  qed
  from shared show "?common \<noteq> [] \<Longrightarrow>
      \<exists>s. tables ?d tid = Some s \<and> set ?common \<subseteq> set (tbl_fields s)"
    by simp
  have dc_tables: "tables dc = (tables ?d)(?temp \<mapsto> ?new, tid := None)"
    using drop_table_Inr [OF e3] db_tables by simp
  from e4 obtain t where t: "tables dc ?temp = Some t"
    and final: "tables (working c') = (tables dc)(?temp := None, tid \<mapsto> t)"
    by (rule rename_table_Inr)
  from t dc_tables temp_name_differs [of tid] have t_eq: "t = ?new" by simp
  have "tables ?d ?temp = None" by (rule c1(1))
  then show "tables (working c') = (tables ?d)(tid \<mapsto> ?new)"
    unfolding final dc_tables t_eq using temp_name_differs [of tid]
    by (auto simp: fun_eq_iff)
qed

lemma select_columns_Inr:
  "select_columns tid d = Inr fetched \<Longrightarrow> catalog_columns d tid = fetched"
  by (auto simp: select_columns_def catalog_columns_def split: option.splits)

lemma update_setting_Inr:
  assumes "update_setting tid name cols dcols d = Inr ((), d')"
  obtains es where "table_settings d = Some es"
    and "d' = d\<lparr>table_settings := Some (map (\<lambda>s. if table_id s = tid
             then s\<lparr>table_name := name, columns := cols, display_columns := dcols\<rparr>
             else s) es)\<rparr>"
  using assms by (auto simp: update_setting_def split: option.splits)

text \<open>A successful \<open>update_table\<close>: the catalog row is rewritten; the data tables are
  untouched when the column set is the same, and otherwise the table is replaced by the
  migrated one.\<close>

lemma update_table_Inr:
  assumes "update_table fault tid name cols dcols db = (Inr ok, db')"
  obtains old es where "catalog_columns db tid = Some old"
    and "table_settings db = Some es"
    and "set cols = set old \<longrightarrow>
           db' = db\<lparr>table_settings := Some (map (\<lambda>s. if table_id s = tid
             then s\<lparr>table_name := name, columns := cols, display_columns := dcols\<rparr>
             else s) es)\<rparr>"
    and "set cols \<noteq> set old \<longrightarrow> distinct cols \<and> cols \<noteq> []
           \<and> (filter (\<lambda>col. col \<in> set old) cols \<noteq> [] \<longrightarrow>
                (\<exists>s. tables db tid = Some s
                  \<and> set (filter (\<lambda>col. col \<in> set old) cols) \<subseteq> set (tbl_fields s)))
           \<and> tables db' = (tables db)(tid \<mapsto>
                \<lparr>tbl_fields = cols,
                 tbl_rows = migrated_rows cols (filter (\<lambda>col. col \<in> set old) cols)
                              (the (tables db tid))\<rparr>)"
proof -
  let ?c0 = "get_db_connection db"
  from assms obtain c where
    body: "update_table_body fault tid name cols dcols ?c0 = (Inr ok, c)" and db': "db' = close c"
    by (auto simp: update_table_def try_rollback_close_def split: prod.splits sum.splits)
  from body obtain fetched c1 where
    q: "query fault (select_columns tid) ?c0 = (Inr fetched, c1)" and
    r1: "(case fetched of
           None \<Rightarrow> raise TypeError
         | Some old_columns \<Rightarrow>
             and_then (execute fault DML (update_setting tid name cols dcols)) (\<lambda>_.
             and_then (if set cols \<noteq> set old_columns
                       then restructure fault tid cols old_columns
                       else return ()) (\<lambda>_.
             and_then (commit fault) (\<lambda>_.
             return True)))) c1 = (Inr ok, c)"
    unfolding update_table_body_def by (rule and_then_Inr)
  have w1: "working c1 = db"
    using query_Inr(2) [OF q] by (simp add: get_db_connection_def)
  have "select_columns tid db = Inr fetched"
    using query_Inr(1) [OF q] by (simp add: get_db_connection_def)
  then have cat: "catalog_columns db tid = fetched" by (rule select_columns_Inr)
  from r1 obtain old where fetched: "fetched = Some old"
    by (cases fetched) (auto simp: raise_def)
  from r1 fetched obtain u2 c2 where
    s2: "execute fault DML (update_setting tid name cols dcols) c1 = (Inr u2, c2)" and
    r2: "and_then (if set cols \<noteq> set old then restructure fault tid cols old else return ())
           (\<lambda>_. and_then (commit fault) (\<lambda>_. return True)) c2 = (Inr ok, c)"
    by (auto elim: and_then_Inr)
  from r2 obtain u3 c3 where
    s3: "(if set cols \<noteq> set old then restructure fault tid cols old else return ()) c2
           = (Inr u3, c3)" and
    r3: "and_then (commit fault) (\<lambda>_. return True) c3 = (Inr ok, c)"
    by (rule and_then_Inr)
  from r3 obtain u4 c4 where s4: "commit fault c3 = (Inr u4, c4)" and "return True c4 = (Inr ok, c)"
    by (rule and_then_Inr)
  then have "c = c4" by (simp add: return_def)
  with commit_Inr(1) [OF s4] db' have final: "db' = working c3" by (simp add: close_def)
  have "update_setting tid name cols dcols db = Inr ((), working c2)"
    using execute_Inr(1) [OF s2] w1 by simp
  then obtain es where es: "table_settings db = Some es"
    and w2: "working c2 = db\<lparr>table_settings := Some (map (\<lambda>s. if table_id s = tid
             then s\<lparr>table_name := name, columns := cols, display_columns := dcols\<rparr>
             else s) es)\<rparr>"
    by (rule update_setting_Inr)
  have same: "set cols = set old \<longrightarrow>
           db' = db\<lparr>table_settings := Some (map (\<lambda>s. if table_id s = tid
             then s\<lparr>table_name := name, columns := cols, display_columns := dcols\<rparr>
             else s) es)\<rparr>"
  proof
    assume "set cols = set old"
    with s3 have "c3 = c2" by (simp add: return_def)
    with final w2 show "db' = db\<lparr>table_settings := Some (map (\<lambda>s. if table_id s = tid
             then s\<lparr>table_name := name, columns := cols, display_columns := dcols\<rparr>
             else s) es)\<rparr>" by simp
  qed
  have differ: "set cols \<noteq> set old \<longrightarrow> distinct cols \<and> cols \<noteq> []
           \<and> (filter (\<lambda>col. col \<in> set old) cols \<noteq> [] \<longrightarrow>
                (\<exists>s. tables db tid = Some s
                  \<and> set (filter (\<lambda>col. col \<in> set old) cols) \<subseteq> set (tbl_fields s)))
           \<and> tables db' = (tables db)(tid \<mapsto>
                \<lparr>tbl_fields = cols,
                 tbl_rows = migrated_rows cols (filter (\<lambda>col. col \<in> set old) cols)
                              (the (tables db tid))\<rparr>)"
  proof
    assume "set cols \<noteq> set old"
    with s3 have rs: "restructure fault tid cols old c2 = (Inr u3, c3)" by simp
    have t2: "tables (working c2) = tables db" by (simp add: w2)
    show "distinct cols \<and> cols \<noteq> []
           \<and> (filter (\<lambda>col. col \<in> set old) cols \<noteq> [] \<longrightarrow>
                (\<exists>s. tables db tid = Some s
                  \<and> set (filter (\<lambda>col. col \<in> set old) cols) \<subseteq> set (tbl_fields s)))
           \<and> tables db' = (tables db)(tid \<mapsto>
                \<lparr>tbl_fields = cols,
                 tbl_rows = migrated_rows cols (filter (\<lambda>col. col \<in> set old) cols)
                              (the (tables db tid))\<rparr>)"
      using restructure_tables [OF rs] unfolding t2 final by blast
  qed
  from cat fetched have "catalog_columns db tid = Some old" by simp
  from this es same differ show thesis by (rule that)
qed

subsection \<open>The migrated rows\<close>

lemma map_of_copied_cells:
  "c \<in> set cols \<Longrightarrow>
     map_of (copied_cells cols shared cells) c
       = Some (if c \<in> set shared then value_of cells c else Null)"
  unfolding copied_cells_def by (induction cols) auto

lemma map_of_copied_cells_None:
  "c \<notin> set cols \<Longrightarrow> map_of (copied_cells cols shared cells) c = None"
  unfolding copied_cells_def by (induction cols) auto

lemma map_fst_copied_cells: "map fst (copied_cells cols shared cells) = cols"
  unfolding copied_cells_def by (induction cols) auto

lemma length_migrated_rows:
  "length (migrated_rows cols shared s) = (if shared = [] then 0 else length (tbl_rows s))"
  by (simp add: migrated_rows_def del: upt_Suc)

lemma nth_migrated_rows:
  assumes "shared \<noteq> []" and "i < length (tbl_rows s)"
  shows "migrated_rows cols shared s ! i
           = (Suc i, copied_cells cols shared (snd (tbl_rows s ! i)))"
  using assms by (simp add: migrated_rows_def del: upt_Suc)

lemma in_migrated_rows:
  assumes "r \<in> set (migrated_rows cols shared s)"
  shows "map fst (snd r) = cols"
proof -
  from assms obtain i where "i < length (migrated_rows cols shared s)"
    and r: "r = migrated_rows cols shared s ! i"
    by (auto simp: in_set_conv_nth)
  then have "shared \<noteq> []" and "i < length (tbl_rows s)"
    by (auto simp: length_migrated_rows split: if_splits)
  from nth_migrated_rows [OF this] r show ?thesis
    by (simp add: map_fst_copied_cells)
qed

section \<open>The derived identifier is the one the specification describes\<close>

lemma ascii_faithful_ascii_python: "ascii_faithful ascii_python"
  by (simp add: ascii_faithful_def ascii_python_def)

lemma not_isalnum_dollar:
  assumes "ascii_faithful py"
  shows "\<not> str_isalnum py CHR ''$''"
proof -
  have "is_ascii CHR ''$''" by (simp add: is_ascii_def)
  with assms have "str_isalnum py CHR ''$'' = ascii_isalnum CHR ''$''"
    unfolding ascii_faithful_def by blast
  then show ?thesis
    by (simp add: ascii_isalnum_def ascii_lower_def ascii_upper_def ascii_digit_def)
qed

lemma replace_chain_Nil: "replace_chain [] = []"
  by (simp add: replace_chain_def replace_char_def remove_char_def)

lemma replace_char_Cons:
  "replace_char a b (c # s) = (if c = a then b else c) # replace_char a b s"
  by (simp add: replace_char_def)

lemma remove_char_Cons:
  "remove_char a (c # s) = (if c = a then remove_char a s else c # remove_char a s)"
  by (simp add: remove_char_def)

lemma replace_chain_sep:
  assumes "c \<in> set '' -&()/''"
  shows "replace_chain (c # s) = CHR ''_'' # replace_chain s"
proof -
  from assms consider "c = CHR '' ''" | "c = CHR ''-''" | "c = CHR ''&''"
    | "c = CHR ''(''" | "c = CHR '')''" | "c = CHR ''/''"
    by auto
  then show ?thesis
  proof cases
    case 1 then show ?thesis by (simp add: replace_chain_def replace_char_Cons remove_char_Cons)
  next
    case 2 then show ?thesis by (simp add: replace_chain_def replace_char_Cons remove_char_Cons)
  next
    case 3 then show ?thesis by (simp add: replace_chain_def replace_char_Cons remove_char_Cons)
  next
    case 4 then show ?thesis by (simp add: replace_chain_def replace_char_Cons remove_char_Cons)
  next
    case 5 then show ?thesis by (simp add: replace_chain_def replace_char_Cons remove_char_Cons)
  next
    case 6 then show ?thesis by (simp add: replace_chain_def replace_char_Cons remove_char_Cons)
  qed
qed

lemma replace_chain_dollar: "replace_chain (CHR ''$'' # s) = replace_chain s"
  by (simp add: replace_chain_def replace_char_Cons remove_char_Cons)

lemma replace_chain_other:
  assumes "c \<notin> set '' -&()/''" and "c \<noteq> CHR ''$''"
  shows "replace_chain (c # s) = c # replace_chain s"
  using assms by (simp add: replace_chain_def replace_char_Cons remove_char_Cons)

text \<open>Removing the dollar sign in the middle of the chain changes nothing that survives
  the filter: the filter removes it as well.\<close>

lemma replace_chain_eq:
  assumes "\<not> P CHR ''$''"
  shows "filter (\<lambda>c. P c \<or> c = CHR ''_'') (replace_chain xs)
   = filter (\<lambda>c. P c \<or> c = CHR ''_'')
       (map (\<lambda>c. if spec_separator c then CHR ''_'' else c) xs)"
proof (induction xs)
  case Nil
  show ?case by (simp add: replace_chain_Nil)
next
  case (Cons c xs)
  show ?case
  proof (cases "spec_separator c")
    case True
    then have "replace_chain (c # xs) = CHR ''_'' # replace_chain xs"
      unfolding spec_separator_def by (rule replace_chain_sep)
    then show ?thesis using True Cons by simp
  next
    case False
    show ?thesis
    proof (cases "c = CHR ''$''")
      case True
      then show ?thesis
        using False Cons assms by (simp add: replace_chain_dollar)
    next
      case nd: False
      have "replace_chain (c # xs) = c # replace_chain xs"
        using False nd unfolding spec_separator_def by (rule replace_chain_other)
      then show ?thesis using False Cons by simp
    qed
  qed
qed

lemma spec_collapse_Cons:
  "spec_collapse (a # xs) =
     (if a = CHR ''_'' \<and> starts_u xs then spec_collapse xs else a # spec_collapse xs)"
  by (cases xs) (simp_all add: starts_u_def)

lemma starts_u_replace_uu: "starts_u (replace_uu s) = starts_u s"
proof (cases s)
  case Nil
  then show ?thesis by simp
next
  case (Cons a t)
  then show ?thesis
    by (cases t) (simp_all add: starts_u_def)
qed

text \<open>One pass of \<open>replace('__', '_')\<close> does not change what the runs collapse to.\<close>

lemma spec_collapse_replace_uu: "spec_collapse (replace_uu s) = spec_collapse s"
proof (induction s rule: replace_uu.induct)
  case (1 a b cs)
  show ?case
  proof (cases "a = CHR ''_'' \<and> b = CHR ''_''")
    case True
    then have "spec_collapse (replace_uu (a # b # cs)) = spec_collapse (CHR ''_'' # replace_uu cs)"
      by simp
    also have "\<dots> = spec_collapse (CHR ''_'' # cs)"
      using 1(1) [OF True]
      by (simp only: spec_collapse_Cons [of _ "replace_uu cs"] spec_collapse_Cons [of _ cs]
          starts_u_replace_uu)
    also have "\<dots> = spec_collapse (a # b # cs)"
      using True by simp
    finally show ?thesis .
  next
    case False
    then have "spec_collapse (replace_uu (a # b # cs)) = spec_collapse (a # replace_uu (b # cs))"
      by auto
    also have "\<dots> = spec_collapse (a # b # cs)"
      using 1(2) [OF False]
      by (simp only: spec_collapse_Cons [of a "replace_uu (b # cs)"]
          spec_collapse_Cons [of a "b # cs"] starts_u_replace_uu)
    finally show ?thesis .
  qed
qed simp_all

lemma spec_collapse_id: "\<not> contains_uu s \<Longrightarrow> spec_collapse s = s"
  by (induction s rule: spec_collapse.induct) auto

text \<open>The \<open>while\<close> loop ends with every run of underscores collapsed to one.\<close>

lemma collapse_loop_eq: "collapse_loop s = spec_collapse s"
proof (induction s rule: collapse_loop.induct)
  case (1 s)
  show ?case
  proof (cases "contains_uu s")
    case True
    then show ?thesis
      using 1 by (simp add: collapse_loop.simps [of s] spec_collapse_replace_uu)
  next
    case False
    then show ?thesis
      by (simp add: collapse_loop.simps [of s] spec_collapse_id)
  qed
qed

text \<open>Whatever \<open>lower\<close> and \<open>isalnum\<close> do, as long as the dollar sign is not
  alphanumeric, the five lines of the routes compute what the specification describes.\<close>

lemma column_name_eq:
  assumes "\<not> str_isalnum py CHR ''$''"
  shows "column_name py label = spec_column_name py label"
  using replace_chain_eq [of "str_isalnum py", OF assms]
  by (simp add: column_name_def spec_column_name_def collapse_loop_eq strip_char_def
      spec_trim_def)

subsection \<open>On ASCII strings only the ASCII behaviour of the methods matters\<close>

lemma map_of_zip_range: "map_of (zip xs ys) c = Some d \<Longrightarrow> d \<in> set ys"
  by (meson in_set_zipE map_of_SomeD)

lemma is_ascii_lower_char: "is_ascii c \<Longrightarrow> is_ascii (ascii_lower_char c)"
proof (cases "map_of (zip ascii_upper ascii_lower) c")
  case None
  assume "is_ascii c"
  with None show ?thesis by (simp add: ascii_lower_char_def)
next
  case (Some d)
  then have "d \<in> set ascii_lower" by (rule map_of_zip_range)
  moreover have "list_all is_ascii ascii_lower"
    by (simp add: ascii_lower_def is_ascii_def)
  ultimately have "is_ascii d" by (simp add: list_all_iff)
  with Some show ?thesis by (simp add: ascii_lower_char_def)
qed

lemma set_replace_char: "set (replace_char a b s) \<subseteq> insert b (set s)"
  by (auto simp: replace_char_def)

lemma set_remove_char: "set (remove_char a s) \<subseteq> set s"
  by (auto simp: remove_char_def)

lemma set_replace_chain: "set (replace_chain s) \<subseteq> insert CHR ''_'' (set s)"
proof -
  let ?s1 = "replace_char CHR '' '' CHR ''_'' s"
  let ?s2 = "replace_char CHR ''-'' CHR ''_'' ?s1"
  let ?s3 = "replace_char CHR ''&'' CHR ''_'' ?s2"
  let ?s4 = "replace_char CHR ''('' CHR ''_'' ?s3"
  let ?s5 = "replace_char CHR '')'' CHR ''_'' ?s4"
  let ?s6 = "remove_char CHR ''$'' ?s5"
  let ?U = "insert CHR ''_'' (set s)"
  have 1: "set ?s1 \<subseteq> ?U" by (rule set_replace_char)
  have 2: "set ?s2 \<subseteq> ?U" using set_replace_char [of "CHR ''-''" "CHR ''_''" ?s1] 1 by blast
  have 3: "set ?s3 \<subseteq> ?U" using set_replace_char [of "CHR ''&''" "CHR ''_''" ?s2] 2 by blast
  have 4: "set ?s4 \<subseteq> ?U" using set_replace_char [of "CHR ''(''" "CHR ''_''" ?s3] 3 by blast
  have 5: "set ?s5 \<subseteq> ?U" using set_replace_char [of "CHR '')''" "CHR ''_''" ?s4] 4 by blast
  have 6: "set ?s6 \<subseteq> ?U" using set_remove_char [of "CHR ''$''" ?s5] 5 by blast
  have "set (replace_char CHR ''/'' CHR ''_'' ?s6) \<subseteq> ?U"
    using set_replace_char [of "CHR ''/''" "CHR ''_''" ?s6] 6 by blast
  then show ?thesis by (simp only: replace_chain_def)
qed

lemma column_name_ascii:
  assumes py: "ascii_faithful py" and s: "list_all is_ascii s"
  shows "column_name py s = column_name ascii_python s"
proof -
  let ?l = "map ascii_lower_char s"
  from py s have low: "str_lower py s = ?l"
    unfolding ascii_faithful_def by blast
  have low': "str_lower ascii_python s = ?l"
    by (simp add: ascii_python_def)
  have "list_all is_ascii ?l"
    using s by (simp add: list_all_iff is_ascii_lower_char)
  moreover have "is_ascii CHR ''_''" by (simp add: is_ascii_def)
  ultimately have all: "\<forall>c\<in>set (replace_chain ?l). is_ascii c"
    using set_replace_chain [of ?l] by (auto simp: list_all_iff)
  have "filter (\<lambda>c. str_isalnum py c \<or> c = CHR ''_'') (replace_chain ?l)
      = filter (\<lambda>c. str_isalnum ascii_python c \<or> c = CHR ''_'') (replace_chain ?l)"
  proof (rule filter_cong [OF refl])
    fix c
    assume "c \<in> set (replace_chain ?l)"
    with all have "is_ascii c" by blast
    with py have "str_isalnum py c = ascii_isalnum c"
      unfolding ascii_faithful_def by blast
    then show "(str_isalnum py c \<or> c = CHR ''_'')
        = (str_isalnum ascii_python c \<or> c = CHR ''_'')"
      by (simp add: ascii_python_def)
  qed
  then show ?thesis
    by (simp add: column_name_def low low')
qed

lemma set_strip: "set (strip py s) \<subseteq> set s"
proof -
  have "set (strip py s) = set (dropWhile (str_isspace py) (rev (dropWhile (str_isspace py) s)))"
    by (simp add: strip_def)
  also have "\<dots> \<subseteq> set (rev (dropWhile (str_isspace py) s))"
    by (rule set_dropWhileD [THEN subsetI])
  also have "\<dots> \<subseteq> set s"
    using set_dropWhileD [of _ "str_isspace py" s] by auto
  finally show ?thesis .
qed

lemma strip_ascii:
  assumes py: "ascii_faithful py" and s: "list_all is_ascii s"
  shows "strip py s = strip ascii_python s"
proof -
  have agree: "str_isspace py c = str_isspace ascii_python c" if "is_ascii c" for c
    using py that unfolding ascii_faithful_def by (simp add: ascii_python_def)
  have first: "dropWhile (str_isspace py) s = dropWhile (str_isspace ascii_python) s"
  proof (rule dropWhile_cong [OF refl])
    fix c assume "c \<in> set s"
    with s show "str_isspace py c = str_isspace ascii_python c"
      by (simp add: list_all_iff agree)
  qed
  let ?r = "rev (dropWhile (str_isspace ascii_python) s)"
  have "dropWhile (str_isspace py) ?r = dropWhile (str_isspace ascii_python) ?r"
  proof (rule dropWhile_cong [OF refl])
    fix c assume "c \<in> set ?r"
    then have "c \<in> set s" using set_dropWhileD [of c "str_isspace ascii_python" s] by simp
    with s show "str_isspace py c = str_isspace ascii_python c"
      by (simp add: list_all_iff agree)
  qed
  with first show ?thesis by (simp add: strip_def)
qed

lemma column_name_ascii_python_eq:
  "column_name ascii_python label = spec_column_name ascii_python label"
  by (rule column_name_eq [OF not_isalnum_dollar [OF ascii_faithful_ascii_python]])

lemmas label_defs =
  column_name_ascii_python_eq spec_column_name_def spec_trim_def spec_separator_def
  ascii_python_def ascii_isalnum_def ascii_lower_char_def ascii_upper_def ascii_lower_def
  ascii_digit_def strip_def ascii_isspace_def

lemma spec_best_by_date: "spec_column_name ascii_python ''Best-By (Date)'' = ''best_by_date''"
  by (simp add: label_defs)

text \<open>
  \<^bold>\<open>C7.\<close> Whatever Python's \<open>lower\<close> and \<open>isalnum\<close> do beyond ASCII, the identifier
  that \<open>add_table\<close> and \<open>edit_table\<close> derive from a label is the label lowercased, with
  spaces, hyphens, ampersands, parentheses and slashes replaced by an underscore, the
  characters that are neither alphanumeric nor an underscore removed, runs of
  underscores collapsed and the underscores at both ends trimmed; the label
  \<open>Best-By (Date)\<close> gives \<open>best_by_date\<close>.
\<close>

theorem column_name_refines_spec:
  assumes "ascii_faithful py"
  shows "column_name py label = spec_column_name py label
   \<and> column_name py ''Best-By (Date)'' = ''best_by_date''"
proof
  show "column_name py label = spec_column_name py label"
    by (rule column_name_eq [OF not_isalnum_dollar [OF assms]])
  have "list_all is_ascii ''Best-By (Date)''"
    by (simp add: is_ascii_def)
  with assms have "column_name py ''Best-By (Date)'' = column_name ascii_python ''Best-By (Date)''"
    by (rule column_name_ascii)
  then show "column_name py ''Best-By (Date)'' = ''best_by_date''"
    by (simp only: column_name_ascii_python_eq spec_best_by_date)
qed

text \<open>The methods cut down to ASCII, and the label \<open>Date of Purchase\<close>.\<close>

theorem column_name_refines_spec_witness:
  "column_name ascii_python ''Date of Purchase''
     = spec_column_name ascii_python ''Date of Purchase''
   \<and> spec_column_name ascii_python ''Date of Purchase'' = ''date_of_purchase''
   \<and> column_name ascii_python ''Best-By (Date)'' = ''best_by_date''"
proof -
  note T = column_name_refines_spec [OF ascii_faithful_ascii_python, of "''Date of Purchase''"]
  have "spec_column_name ascii_python ''Date of Purchase'' = ''date_of_purchase''"
    by (simp add: label_defs)
  with T show ?thesis by (intro conjI) (simp_all only:)
qed

section \<open>Ranks: the next rank and the reorder\<close>

text \<open>
  \<^bold>\<open>C5.\<close> The claim: \<open>create_table\<close> gives the new catalog row the largest
  \<open>display_order\<close> of the catalog plus one. The code computes \<open>(max_order or -1) + 1\<close>,
  and Python's \<open>or\<close> takes the right operand for the rank 0 as it does for \<open>None\<close>. On the
  catalog that holds only \<open>pantry\<close> at rank 0, the call succeeds and the new row gets
  rank 0, not 1. On the catalog with \<open>pantry\<close> at rank 0 and \<open>fridge\<close> at rank 1 the
  same code gives the new row the rank 2.
\<close>

theorem create_table_rank_after_rank_zero:
  "fst (create_table None ''fridge'' ''Fridge'' [''item'', ''date_of_purchase'', ''amount'']
          [''Item'', ''Date of Purchase'', ''Amount''] pantry_database) = Inr True
   \<and> map_option (map (\<lambda>s. (table_id s, display_order s)))
       (table_settings (snd (create_table None ''fridge'' ''Fridge''
          [''item'', ''date_of_purchase'', ''amount'']
          [''Item'', ''Date of Purchase'', ''Amount''] pantry_database)))
     = Some [(''pantry'', 0), (''fridge'', 0)]
   \<and> map_option (map (\<lambda>s. (table_id s, display_order s)))
       (table_settings (snd (create_table None ''shelf'' ''Shelf'' [''item''] [''Item'']
          fridge_database)))
     = Some [(''pantry'', 0), (''fridge'', 1), (''shelf'', 2)]"
  by (simp add: create_table_def create_table_body_def or_else_def action_defs
      statement_defs example_defs)

text \<open>
  \<^bold>\<open>C4.\<close> The claim: after every reorder, \<open>pantry\<close> is at rank 0 and the others follow
  at consecutive ranks. \<open>update_table_order\<close> writes the ranks it is given and commits;
  it does not call \<open>ensure_pantry_first\<close>, which only \<open>init_database\<close> calls. With the
  mapping \<open>{"pantry": 2, "fridge": 0}\<close> the call succeeds, \<open>pantry\<close> is left at rank 2
  and \<open>get_tables_config\<close> lists \<open>fridge\<close> first. \<open>ensure_pantry_first\<close>, run on that
  state, puts \<open>pantry\<close> at rank 0 and \<open>fridge\<close> at rank 1.
\<close>

theorem update_table_order_leaves_pantry_behind:
  "fst (update_table_order None [(''pantry'', 2), (''fridge'', 0)] fridge_database) = Inr True
   \<and> get_tables_config
        (snd (update_table_order None [(''pantry'', 2), (''fridge'', 0)] fridge_database))
     = Inr [(''fridge'', fridge_setting\<lparr>display_order := 0\<rparr>),
            (''pantry'', pantry_setting\<lparr>display_order := 2\<rparr>)]
   \<and> get_tables_config (ensure_pantry_first None
        (snd (update_table_order None [(''pantry'', 2), (''fridge'', 0)] fridge_database)))
     = Inr [(''pantry'', pantry_setting),
            (''fridge'', fridge_setting)]"
  by (simp add: update_table_order_def update_table_order_body_def get_tables_config_def
      ensure_pantry_first_def ensure_pantry_first_body_def
      action_defs statement_defs example_defs)

section \<open>Migrations\<close>

lemma common_columns_superset:
  assumes "set old \<subseteq> set cols" and "old \<noteq> []"
  shows "filter (\<lambda>col. col \<in> set old) cols \<noteq> []"
    and "set (filter (\<lambda>col. col \<in> set old) cols) = set old"
proof -
  show s: "set (filter (\<lambda>col. col \<in> set old) cols) = set old"
    using assms(1) by auto
  from assms(2) have "set old \<noteq> {}" by simp
  with s show "filter (\<lambda>col. col \<in> set old) cols \<noteq> []"
    by (metis set_empty)
qed

lemma superset_migration_Inr:
  assumes run: "update_table fault tid name cols dcols db = (Inr ok, db')"
    and cat: "catalog_columns db tid = Some old"
    and ne: "old \<noteq> []"
    and sup: "set old \<subseteq> set cols"
    and tbl: "tables db tid = Some t"
  shows "\<exists>t'. tables db' tid = Some t'
           \<and> length (tbl_rows t') = length (tbl_rows t)
           \<and> (\<forall>i<length (tbl_rows t). \<forall>c v.
                 (c \<in> set old \<longrightarrow> map_of (snd (tbl_rows t ! i)) c = Some v
                    \<longrightarrow> map_of (snd (tbl_rows t' ! i)) c = Some v)
                 \<and> (c \<in> set cols - set old
                    \<longrightarrow> map_of (snd (tbl_rows t' ! i)) c = Some Null))"
proof -
  let ?common = "filter (\<lambda>col. col \<in> set old) cols"
  from run obtain old' es where cat': "catalog_columns db tid = Some old'"
    and "table_settings db = Some es"
    and same: "set cols = set old' \<longrightarrow>
           db' = db\<lparr>table_settings := Some (map (\<lambda>s. if table_id s = tid
             then s\<lparr>table_name := name, columns := cols, display_columns := dcols\<rparr>
             else s) es)\<rparr>"
    and differ: "set cols \<noteq> set old' \<longrightarrow> distinct cols \<and> cols \<noteq> []
           \<and> (filter (\<lambda>col. col \<in> set old') cols \<noteq> [] \<longrightarrow>
                (\<exists>s. tables db tid = Some s
                  \<and> set (filter (\<lambda>col. col \<in> set old') cols) \<subseteq> set (tbl_fields s)))
           \<and> tables db' = (tables db)(tid \<mapsto>
                \<lparr>tbl_fields = cols,
                 tbl_rows = migrated_rows cols (filter (\<lambda>col. col \<in> set old') cols)
                              (the (tables db tid))\<rparr>)"
    by (rule update_table_Inr)
  from cat cat' have old': "old' = old" by simp
  show ?thesis
  proof (cases "set cols = set old")
    case True
    with same old' have "tables db' = tables db" by simp
    with tbl True show ?thesis by auto
  next
    case False
    with differ old' have new: "tables db' tid = Some
        \<lparr>tbl_fields = cols, tbl_rows = migrated_rows cols ?common t\<rparr>"
      using tbl by simp
    note cc = common_columns_superset [OF sup ne]
    let ?t' = "\<lparr>tbl_fields = cols, tbl_rows = migrated_rows cols ?common t\<rparr>"
    have len: "length (tbl_rows ?t') = length (tbl_rows t)"
      using cc(1) by (simp add: length_migrated_rows)
    have cells: "\<forall>i<length (tbl_rows t). \<forall>c v.
                 (c \<in> set old \<longrightarrow> map_of (snd (tbl_rows t ! i)) c = Some v
                    \<longrightarrow> map_of (snd (tbl_rows ?t' ! i)) c = Some v)
                 \<and> (c \<in> set cols - set old
                    \<longrightarrow> map_of (snd (tbl_rows ?t' ! i)) c = Some Null)"
    proof (intro allI impI conjI)
      fix i c v
      assume i: "i < length (tbl_rows t)"
      have row: "snd (tbl_rows ?t' ! i) = copied_cells cols ?common (snd (tbl_rows t ! i))"
        using nth_migrated_rows [OF cc(1) i] by simp
      {
        assume c: "c \<in> set old" and v: "map_of (snd (tbl_rows t ! i)) c = Some v"
        from c sup have "c \<in> set cols" by auto
        moreover from c cc(2) have "c \<in> set ?common" by simp
        ultimately show "map_of (snd (tbl_rows ?t' ! i)) c = Some v"
          unfolding row using v by (simp add: map_of_copied_cells value_of_def)
      }
      {
        assume c: "c \<in> set cols - set old"
        then have "c \<in> set cols" and "c \<notin> set ?common" using cc(2) by auto
        then show "map_of (snd (tbl_rows ?t' ! i)) c = Some Null"
          unfolding row by (simp add: map_of_copied_cells)
      }
    qed
    from new len cells show ?thesis by blast
  qed
qed

text \<open>
  \<^bold>\<open>C2.\<close> When the new columns include every column the catalog holds for the table
  (which has at least one), the table has after \<open>update_table\<close> as many rows as before,
  in the same order, and each row keeps the value of every old column, whether the call
  succeeds or raises; when it succeeds, each row holds \<open>NULL\<close> in every column that is
  new.
\<close>

theorem superset_migration_keeps_rows:
  assumes cat: "catalog_columns db tid = Some old"
    and ne: "old \<noteq> []"
    and sup: "set old \<subseteq> set cols"
    and tbl: "tables db tid = Some t"
  shows "\<exists>t'. tables (snd (update_table fault tid name cols dcols db)) tid = Some t'
           \<and> length (tbl_rows t') = length (tbl_rows t)
           \<and> (\<forall>i<length (tbl_rows t). \<forall>c v.
                 (c \<in> set old \<longrightarrow> map_of (snd (tbl_rows t ! i)) c = Some v
                    \<longrightarrow> map_of (snd (tbl_rows t' ! i)) c = Some v)
                 \<and> ((\<exists>ok. fst (update_table fault tid name cols dcols db) = Inr ok)
                    \<longrightarrow> c \<in> set cols - set old
                    \<longrightarrow> map_of (snd (tbl_rows t' ! i)) c = Some Null))"
proof (cases "update_table fault tid name cols dcols db")
  case (Pair r db')
  show ?thesis
  proof (cases r)
    case (Inl e)
    with Pair have "db' = db" by (simp add: update_table_failed)
    with Pair Inl tbl show ?thesis by simp
  next
    case (Inr ok)
    with Pair have run: "update_table fault tid name cols dcols db = (Inr ok, db')" by simp
    from superset_migration_Inr [OF run cat ne sup tbl] obtain t' where
      t': "tables db' tid = Some t'"
      and len: "length (tbl_rows t') = length (tbl_rows t)"
      and cells: "\<forall>i<length (tbl_rows t). \<forall>c v.
                 (c \<in> set old \<longrightarrow> map_of (snd (tbl_rows t ! i)) c = Some v
                    \<longrightarrow> map_of (snd (tbl_rows t' ! i)) c = Some v)
                 \<and> (c \<in> set cols - set old
                    \<longrightarrow> map_of (snd (tbl_rows t' ! i)) c = Some Null)"
      by blast
    have "tables (snd (update_table fault tid name cols dcols db)) tid = Some t'"
      using run t' by simp
    with len cells show ?thesis by blast
  qed
qed

text \<open>The table \<open>fridge\<close> with its row \<open>{item: "milk", amount: "1"}\<close> gets the column
  \<open>expiration_date\<close>.\<close>

theorem superset_migration_keeps_rows_witness:
  "\<exists>t'. tables (snd (update_table None ''fridge'' ''Fridge''
            [''item'', ''amount'', ''expiration_date'']
            [''Item'', ''Amount'', ''Expiration Date''] fridge_database)) ''fridge'' = Some t'
     \<and> length (tbl_rows t') = 1
     \<and> map_of (snd (tbl_rows t' ! 0)) ''item'' = Some (Text ''milk'')
     \<and> map_of (snd (tbl_rows t' ! 0)) ''amount'' = Some (Text ''1'')
     \<and> map_of (snd (tbl_rows t' ! 0)) ''expiration_date'' = Some Null"
proof -
  let ?cols = "[''item'', ''amount'', ''expiration_date'']"
  let ?old = "[''item'', ''amount'']"
  let ?u = "update_table None ''fridge'' ''Fridge'' ?cols
              [''Item'', ''Amount'', ''Expiration Date''] fridge_database"
  let ?t = "\<lparr>tbl_fields = ?old, tbl_rows = [milk_row]\<rparr>"
  have "fst ?u = Inr True"
    by (simp add: update_table_def update_table_body_def restructure_def action_defs
        statement_defs example_defs)
  then have ok: "\<exists>ok. fst ?u = Inr ok" by blast
  have cat: "catalog_columns fridge_database ''fridge'' = Some ?old"
    by (simp add: catalog_columns_def example_defs)
  have tbl: "tables fridge_database ''fridge'' = Some ?t"
    by (simp add: fridge_database_def)
  have ne: "?old \<noteq> ([] :: string list)" by simp
  have sup: "set ?old \<subseteq> set ?cols" by simp
  from superset_migration_keeps_rows [OF cat ne sup tbl]
  obtain t' where all: "tables (snd ?u) ''fridge'' = Some t'
     \<and> length (tbl_rows t') = length (tbl_rows ?t)
     \<and> (\<forall>i<length (tbl_rows ?t). \<forall>c v.
           (c \<in> set ?old \<longrightarrow> map_of (snd (tbl_rows ?t ! i)) c = Some v
              \<longrightarrow> map_of (snd (tbl_rows t' ! i)) c = Some v)
           \<and> ((\<exists>ok. fst ?u = Inr ok)
              \<longrightarrow> c \<in> set ?cols - set ?old
              \<longrightarrow> map_of (snd (tbl_rows t' ! i)) c = Some Null))"
    by (rule exE)
  note t' = all [THEN conjunct1]
  note len = all [THEN conjunct2, THEN conjunct1]
  note cells = all [THEN conjunct2, THEN conjunct2]
  have i0: "0 < length (tbl_rows ?t)" by simp
  have len1: "length (tbl_rows t') = 1"
    unfolding len by simp
  have old_item: "map_of (snd (tbl_rows ?t ! 0)) ''item'' = Some (Text ''milk'')"
    by (simp add: milk_row_def)
  have old_amount: "map_of (snd (tbl_rows ?t ! 0)) ''amount'' = Some (Text ''1'')"
    by (simp add: milk_row_def)
  have in_item: "''item'' \<in> set ?old" and in_amount: "''amount'' \<in> set ?old"
    by simp_all
  have new_date: "''expiration_date'' \<in> set ?cols - set ?old" by simp
  have item: "map_of (snd (tbl_rows t' ! 0)) ''item'' = Some (Text ''milk'')"
    by (rule cells [rule_format, OF i0, THEN conjunct1, rule_format, OF in_item old_item])
  have amount: "map_of (snd (tbl_rows t' ! 0)) ''amount'' = Some (Text ''1'')"
    by (rule cells [rule_format, OF i0, THEN conjunct1, rule_format, OF in_amount old_amount])
  have date: "map_of (snd (tbl_rows t' ! 0)) ''expiration_date'' = Some Null"
    by (rule cells [rule_format, OF i0, THEN conjunct2, rule_format, OF ok new_date])
  show ?thesis
    by (intro exI [of _ t'] conjI) (fact t' len1 item amount date)+
qed

text \<open>
  \<^bold>\<open>C3.\<close> When \<open>update_table\<close> succeeds and some column the catalog held is absent from
  the new columns, the table after the call has exactly the new columns, which are
  distinct, and every row has a cell for each new column and for no other, so a dropped
  column has no cell. The rows are those of before, in the same order (and there is no
  row at all when no column is common). In each row a column common to both lists holds
  the value the row held there, and a column that is new holds \<open>NULL\<close>: no cell holds a
  value of a dropped column.
\<close>

theorem dropped_columns_leave_no_trace:
  assumes run: "update_table fault tid name cols dcols db = (Inr ok, db')"
    and cat: "catalog_columns db tid = Some old"
    and dropped: "\<not> set old \<subseteq> set cols"
    and tbl: "tables db tid = Some t"
  shows "\<exists>t'. tables db' tid = Some t'
           \<and> tbl_fields t' = cols
           \<and> distinct cols
           \<and> (\<forall>r\<in>set (tbl_rows t'). map fst (snd r) = cols)
           \<and> (\<forall>r\<in>set (tbl_rows t'). \<forall>c. c \<notin> set cols \<longrightarrow> map_of (snd r) c = None)
           \<and> length (tbl_rows t') = (if set old \<inter> set cols = {} then 0 else length (tbl_rows t))
           \<and> (\<forall>i<length (tbl_rows t'). \<forall>c v.
                 c \<in> set old \<inter> set cols \<longrightarrow> map_of (snd (tbl_rows t ! i)) c = Some v
                    \<longrightarrow> map_of (snd (tbl_rows t' ! i)) c = Some v)
           \<and> (\<forall>i<length (tbl_rows t'). \<forall>c.
                 (c \<in> set old \<inter> set cols \<longrightarrow>
                    map_of (snd (tbl_rows t' ! i)) c = Some (value_of (snd (tbl_rows t ! i)) c))
                 \<and> (c \<in> set cols - set old \<longrightarrow>
                    map_of (snd (tbl_rows t' ! i)) c = Some Null))"
proof -
  let ?common = "filter (\<lambda>col. col \<in> set old) cols"
  let ?t' = "\<lparr>tbl_fields = cols, tbl_rows = migrated_rows cols ?common t\<rparr>"
  from run obtain old' es where cat': "catalog_columns db tid = Some old'"
    and "table_settings db = Some es"
    and same: "set cols = set old' \<longrightarrow>
           db' = db\<lparr>table_settings := Some (map (\<lambda>s. if table_id s = tid
             then s\<lparr>table_name := name, columns := cols, display_columns := dcols\<rparr>
             else s) es)\<rparr>"
    and differ: "set cols \<noteq> set old' \<longrightarrow> distinct cols \<and> cols \<noteq> []
           \<and> (filter (\<lambda>col. col \<in> set old') cols \<noteq> [] \<longrightarrow>
                (\<exists>s. tables db tid = Some s
                  \<and> set (filter (\<lambda>col. col \<in> set old') cols) \<subseteq> set (tbl_fields s)))
           \<and> tables db' = (tables db)(tid \<mapsto>
                \<lparr>tbl_fields = cols,
                 tbl_rows = migrated_rows cols (filter (\<lambda>col. col \<in> set old') cols)
                              (the (tables db tid))\<rparr>)"
    by (rule update_table_Inr)
  from cat cat' have old': "old' = old" by simp
  from dropped have ne: "set cols \<noteq> set old" by auto
  with differ old' tbl have new: "tables db' tid = Some ?t'" by simp
  from ne differ old' have dist: "distinct cols" by simp
  have common_set: "set ?common = set old \<inter> set cols" by auto
  have empty_iff: "?common = [] \<longleftrightarrow> set old \<inter> set cols = {}"
    using common_set by (metis set_empty)
  have keys: "\<forall>r\<in>set (tbl_rows ?t'). map fst (snd r) = cols"
    using in_migrated_rows by simp
  have gone: "\<forall>r\<in>set (tbl_rows ?t'). \<forall>c. c \<notin> set cols \<longrightarrow> map_of (snd r) c = None"
  proof (intro ballI allI impI)
    fix r c
    assume "r \<in> set (tbl_rows ?t')" and c: "c \<notin> set cols"
    with keys have "map fst (snd r) = cols" by blast
    with c have "c \<notin> fst ` set (snd r)" by (metis list.set_map)
    then show "map_of (snd r) c = None" by (simp add: map_of_eq_None_iff)
  qed
  have len: "length (tbl_rows ?t') = (if set old \<inter> set cols = {} then 0 else length (tbl_rows t))"
    using empty_iff by (simp add: length_migrated_rows)
  have row: "snd (tbl_rows ?t' ! i) = copied_cells cols ?common (snd (tbl_rows t ! i))"
    if i: "i < length (tbl_rows ?t')" for i
  proof -
    from i have ne: "?common \<noteq> []" and i': "i < length (tbl_rows t)"
      by (auto simp: length_migrated_rows split: if_splits)
    from nth_migrated_rows [OF ne i'] show ?thesis by simp
  qed
  have cells: "\<forall>i<length (tbl_rows ?t'). \<forall>c v.
                 c \<in> set old \<inter> set cols \<longrightarrow> map_of (snd (tbl_rows t ! i)) c = Some v
                    \<longrightarrow> map_of (snd (tbl_rows ?t' ! i)) c = Some v"
  proof (intro allI impI)
    fix i c v
    assume i: "i < length (tbl_rows ?t')"
      and c: "c \<in> set old \<inter> set cols" and v: "map_of (snd (tbl_rows t ! i)) c = Some v"
    from c have "c \<in> set cols" and "c \<in> set ?common" by auto
    then show "map_of (snd (tbl_rows ?t' ! i)) c = Some v"
      unfolding row [OF i] using v by (simp add: map_of_copied_cells value_of_def)
  qed
  have exact: "\<forall>i<length (tbl_rows ?t'). \<forall>c.
                 (c \<in> set old \<inter> set cols \<longrightarrow>
                    map_of (snd (tbl_rows ?t' ! i)) c = Some (value_of (snd (tbl_rows t ! i)) c))
                 \<and> (c \<in> set cols - set old \<longrightarrow>
                    map_of (snd (tbl_rows ?t' ! i)) c = Some Null)"
  proof (intro allI impI conjI)
    fix i c
    assume i: "i < length (tbl_rows ?t')"
    {
      assume "c \<in> set old \<inter> set cols"
      then have "c \<in> set cols" and "c \<in> set ?common" by auto
      then show "map_of (snd (tbl_rows ?t' ! i)) c = Some (value_of (snd (tbl_rows t ! i)) c)"
        unfolding row [OF i] by (simp add: map_of_copied_cells)
    }
    {
      assume "c \<in> set cols - set old"
      then have "c \<in> set cols" and "c \<notin> set ?common" by auto
      then show "map_of (snd (tbl_rows ?t' ! i)) c = Some Null"
        unfolding row [OF i] by (simp add: map_of_copied_cells)
    }
  qed
  have fields: "tbl_fields ?t' = cols" by simp
  from new fields dist keys gone len cells exact show ?thesis by blast
qed

text \<open>The table \<open>fridge\<close> with its row \<open>{item: "milk", amount: "1", expiration_date: ...}\<close>
  loses the column \<open>expiration_date\<close>; in a second edit it loses it and gets the column
  \<open>notes\<close>, which holds \<open>NULL\<close> and not the date.\<close>

theorem dropped_columns_leave_no_trace_witness:
  "(\<exists>t'. tables (snd (update_table None ''fridge'' ''Fridge'' [''item'', ''amount'']
            [''Item'', ''Amount''] dated_fridge_database)) ''fridge'' = Some t'
     \<and> tbl_fields t' = [''item'', ''amount'']
     \<and> length (tbl_rows t') = 1
     \<and> map fst (snd (tbl_rows t' ! 0)) = [''item'', ''amount'']
     \<and> map_of (snd (tbl_rows t' ! 0)) ''item'' = Some (Text ''milk'')
     \<and> map_of (snd (tbl_rows t' ! 0)) ''amount'' = Some (Text ''1'')
     \<and> map_of (snd (tbl_rows t' ! 0)) ''expiration_date'' = None)
   \<and> (\<exists>t'. tables (snd (update_table None ''fridge'' ''Fridge'' [''item'', ''amount'', ''notes'']
            [''Item'', ''Amount'', ''Notes''] dated_fridge_database)) ''fridge'' = Some t'
     \<and> tbl_fields t' = [''item'', ''amount'', ''notes'']
     \<and> length (tbl_rows t') = 1
     \<and> map fst (snd (tbl_rows t' ! 0)) = [''item'', ''amount'', ''notes'']
     \<and> map_of (snd (tbl_rows t' ! 0)) ''item'' = Some (Text ''milk'')
     \<and> map_of (snd (tbl_rows t' ! 0)) ''amount'' = Some (Text ''1'')
     \<and> map_of (snd (tbl_rows t' ! 0)) ''notes'' = Some Null
     \<and> map_of (snd (tbl_rows t' ! 0)) ''expiration_date'' = None)"
proof -
  let ?old = "[''item'', ''amount'', ''expiration_date'']"
  let ?t = "\<lparr>tbl_fields = ?old, tbl_rows = [dated_milk_row]\<rparr>"
  have cat: "catalog_columns dated_fridge_database ''fridge'' = Some ?old"
    by (simp add: catalog_columns_def example_defs)
  have tbl: "tables dated_fridge_database ''fridge'' = Some ?t"
    by (simp add: dated_fridge_database_def)
  have old_item: "map_of (snd (tbl_rows ?t ! 0)) ''item'' = Some (Text ''milk'')"
    by (simp add: dated_milk_row_def)
  have old_amount: "map_of (snd (tbl_rows ?t ! 0)) ''amount'' = Some (Text ''1'')"
    by (simp add: dated_milk_row_def)
  have first: "\<exists>t'. tables (snd (update_table None ''fridge'' ''Fridge'' [''item'', ''amount'']
            [''Item'', ''Amount''] dated_fridge_database)) ''fridge'' = Some t'
     \<and> tbl_fields t' = [''item'', ''amount'']
     \<and> length (tbl_rows t') = 1
     \<and> map fst (snd (tbl_rows t' ! 0)) = [''item'', ''amount'']
     \<and> map_of (snd (tbl_rows t' ! 0)) ''item'' = Some (Text ''milk'')
     \<and> map_of (snd (tbl_rows t' ! 0)) ''amount'' = Some (Text ''1'')
     \<and> map_of (snd (tbl_rows t' ! 0)) ''expiration_date'' = None"
  proof -
    let ?cols = "[''item'', ''amount'']"
    let ?u = "update_table None ''fridge'' ''Fridge'' ?cols [''Item'', ''Amount'']
                dated_fridge_database"
    have "fst ?u = Inr True"
      by (simp add: update_table_def update_table_body_def restructure_def action_defs
          statement_defs example_defs)
    then have run: "?u = (Inr True, snd ?u)"
      by (metis prod.collapse)
    have dropped: "\<not> set ?old \<subseteq> set ?cols" by simp
    have meet: "set ?old \<inter> set ?cols \<noteq> {}" by simp
    from dropped_columns_leave_no_trace [OF run cat dropped tbl]
    obtain t' where all: "tables (snd ?u) ''fridge'' = Some t'
       \<and> tbl_fields t' = ?cols
       \<and> distinct ?cols
       \<and> (\<forall>r\<in>set (tbl_rows t'). map fst (snd r) = ?cols)
       \<and> (\<forall>r\<in>set (tbl_rows t'). \<forall>c. c \<notin> set ?cols \<longrightarrow> map_of (snd r) c = None)
       \<and> length (tbl_rows t') = (if set ?old \<inter> set ?cols = {} then 0 else length (tbl_rows ?t))
       \<and> (\<forall>i<length (tbl_rows t'). \<forall>c v.
             c \<in> set ?old \<inter> set ?cols \<longrightarrow> map_of (snd (tbl_rows ?t ! i)) c = Some v
               \<longrightarrow> map_of (snd (tbl_rows t' ! i)) c = Some v)
       \<and> (\<forall>i<length (tbl_rows t'). \<forall>c.
             (c \<in> set ?old \<inter> set ?cols \<longrightarrow>
                map_of (snd (tbl_rows t' ! i)) c = Some (value_of (snd (tbl_rows ?t ! i)) c))
             \<and> (c \<in> set ?cols - set ?old \<longrightarrow>
                map_of (snd (tbl_rows t' ! i)) c = Some Null))"
      by (rule exE)
    note t' = all [THEN conjunct1]
    note fields = all [THEN conjunct2, THEN conjunct1]
    note keys = all [THEN conjunct2, THEN conjunct2, THEN conjunct2, THEN conjunct1]
    note gone = all [THEN conjunct2, THEN conjunct2, THEN conjunct2, THEN conjunct2,
        THEN conjunct1]
    note len = all [THEN conjunct2, THEN conjunct2, THEN conjunct2, THEN conjunct2,
        THEN conjunct2, THEN conjunct1]
    note cells = all [THEN conjunct2, THEN conjunct2, THEN conjunct2, THEN conjunct2,
        THEN conjunct2, THEN conjunct2, THEN conjunct1]
    have len1: "length (tbl_rows t') = 1"
      unfolding len using meet by simp
    then have i0: "0 < length (tbl_rows t')" by simp
    then have mem: "tbl_rows t' ! 0 \<in> set (tbl_rows t')" by (rule nth_mem)
    have k0: "map fst (snd (tbl_rows t' ! 0)) = ?cols"
      by (rule keys [rule_format, OF mem])
    have in_item: "''item'' \<in> set ?old \<inter> set ?cols" by simp
    have in_amount: "''amount'' \<in> set ?old \<inter> set ?cols" by simp
    have out_date: "''expiration_date'' \<notin> set ?cols" by simp
    have item: "map_of (snd (tbl_rows t' ! 0)) ''item'' = Some (Text ''milk'')"
      by (rule cells [rule_format, OF i0 in_item old_item])
    have amount: "map_of (snd (tbl_rows t' ! 0)) ''amount'' = Some (Text ''1'')"
      by (rule cells [rule_format, OF i0 in_amount old_amount])
    have date: "map_of (snd (tbl_rows t' ! 0)) ''expiration_date'' = None"
      by (rule gone [rule_format, OF mem out_date])
    show ?thesis
      by (intro exI [of _ t'] conjI) (fact t' fields len1 k0 item amount date)+
  qed
  have second: "\<exists>t'. tables (snd (update_table None ''fridge'' ''Fridge''
            [''item'', ''amount'', ''notes'']
            [''Item'', ''Amount'', ''Notes''] dated_fridge_database)) ''fridge'' = Some t'
     \<and> tbl_fields t' = [''item'', ''amount'', ''notes'']
     \<and> length (tbl_rows t') = 1
     \<and> map fst (snd (tbl_rows t' ! 0)) = [''item'', ''amount'', ''notes'']
     \<and> map_of (snd (tbl_rows t' ! 0)) ''item'' = Some (Text ''milk'')
     \<and> map_of (snd (tbl_rows t' ! 0)) ''amount'' = Some (Text ''1'')
     \<and> map_of (snd (tbl_rows t' ! 0)) ''notes'' = Some Null
     \<and> map_of (snd (tbl_rows t' ! 0)) ''expiration_date'' = None"
  proof -
    let ?cols = "[''item'', ''amount'', ''notes'']"
    let ?u = "update_table None ''fridge'' ''Fridge'' ?cols [''Item'', ''Amount'', ''Notes'']
                dated_fridge_database"
    have "fst ?u = Inr True"
      by (simp add: update_table_def update_table_body_def restructure_def action_defs
          statement_defs example_defs)
    then have run: "?u = (Inr True, snd ?u)"
      by (metis prod.collapse)
    have dropped: "\<not> set ?old \<subseteq> set ?cols" by simp
    have meet: "set ?old \<inter> set ?cols \<noteq> {}" by simp
    from dropped_columns_leave_no_trace [OF run cat dropped tbl]
    obtain t' where all: "tables (snd ?u) ''fridge'' = Some t'
       \<and> tbl_fields t' = ?cols
       \<and> distinct ?cols
       \<and> (\<forall>r\<in>set (tbl_rows t'). map fst (snd r) = ?cols)
       \<and> (\<forall>r\<in>set (tbl_rows t'). \<forall>c. c \<notin> set ?cols \<longrightarrow> map_of (snd r) c = None)
       \<and> length (tbl_rows t') = (if set ?old \<inter> set ?cols = {} then 0 else length (tbl_rows ?t))
       \<and> (\<forall>i<length (tbl_rows t'). \<forall>c v.
             c \<in> set ?old \<inter> set ?cols \<longrightarrow> map_of (snd (tbl_rows ?t ! i)) c = Some v
               \<longrightarrow> map_of (snd (tbl_rows t' ! i)) c = Some v)
       \<and> (\<forall>i<length (tbl_rows t'). \<forall>c.
             (c \<in> set ?old \<inter> set ?cols \<longrightarrow>
                map_of (snd (tbl_rows t' ! i)) c = Some (value_of (snd (tbl_rows ?t ! i)) c))
             \<and> (c \<in> set ?cols - set ?old \<longrightarrow>
                map_of (snd (tbl_rows t' ! i)) c = Some Null))"
      by (rule exE)
    note t' = all [THEN conjunct1]
    note fields = all [THEN conjunct2, THEN conjunct1]
    note keys = all [THEN conjunct2, THEN conjunct2, THEN conjunct2, THEN conjunct1]
    note gone = all [THEN conjunct2, THEN conjunct2, THEN conjunct2, THEN conjunct2,
        THEN conjunct1]
    note len = all [THEN conjunct2, THEN conjunct2, THEN conjunct2, THEN conjunct2,
        THEN conjunct2, THEN conjunct1]
    note cells = all [THEN conjunct2, THEN conjunct2, THEN conjunct2, THEN conjunct2,
        THEN conjunct2, THEN conjunct2, THEN conjunct1]
    note exact = all [THEN conjunct2, THEN conjunct2, THEN conjunct2, THEN conjunct2,
        THEN conjunct2, THEN conjunct2, THEN conjunct2]
    have len1: "length (tbl_rows t') = 1"
      unfolding len using meet by simp
    then have i0: "0 < length (tbl_rows t')" by simp
    then have mem: "tbl_rows t' ! 0 \<in> set (tbl_rows t')" by (rule nth_mem)
    have k0: "map fst (snd (tbl_rows t' ! 0)) = ?cols"
      by (rule keys [rule_format, OF mem])
    have in_item: "''item'' \<in> set ?old \<inter> set ?cols" by simp
    have in_amount: "''amount'' \<in> set ?old \<inter> set ?cols" by simp
    have new_notes: "''notes'' \<in> set ?cols - set ?old" by simp
    have out_date: "''expiration_date'' \<notin> set ?cols" by simp
    have item: "map_of (snd (tbl_rows t' ! 0)) ''item'' = Some (Text ''milk'')"
      by (rule cells [rule_format, OF i0 in_item old_item])
    have amount: "map_of (snd (tbl_rows t' ! 0)) ''amount'' = Some (Text ''1'')"
      by (rule cells [rule_format, OF i0 in_amount old_amount])
    have added: "map_of (snd (tbl_rows t' ! 0)) ''notes'' = Some Null"
      by (rule exact [rule_format, OF i0, THEN conjunct2, rule_format, OF new_notes])
    have date: "map_of (snd (tbl_rows t' ! 0)) ''expiration_date'' = None"
      by (rule gone [rule_format, OF mem out_date])
    show ?thesis
      by (intro exI [of _ t'] conjI) (fact t' fields len1 k0 item amount added date)+
  qed
  from first second show ?thesis by (rule conjI)
qed

text \<open>
  \<^bold>\<open>C10.\<close> When \<open>update_table\<close> succeeds and the new columns share no identifier with the
  columns the catalog held for the table (which has at least one), the table has no row
  after the call, whatever rows it held.
\<close>

theorem disjoint_migration_discards_rows:
  assumes run: "update_table fault tid name cols dcols db = (Inr ok, db')"
    and cat: "catalog_columns db tid = Some old"
    and ne: "old \<noteq> []"
    and disjoint: "set cols \<inter> set old = {}"
  shows "\<exists>t'. tables db' tid = Some t' \<and> tbl_fields t' = cols \<and> tbl_rows t' = []"
proof -
  from run obtain old' es where cat': "catalog_columns db tid = Some old'"
    and "table_settings db = Some es"
    and same: "set cols = set old' \<longrightarrow>
           db' = db\<lparr>table_settings := Some (map (\<lambda>s. if table_id s = tid
             then s\<lparr>table_name := name, columns := cols, display_columns := dcols\<rparr>
             else s) es)\<rparr>"
    and differ: "set cols \<noteq> set old' \<longrightarrow> distinct cols \<and> cols \<noteq> []
           \<and> (filter (\<lambda>col. col \<in> set old') cols \<noteq> [] \<longrightarrow>
                (\<exists>s. tables db tid = Some s
                  \<and> set (filter (\<lambda>col. col \<in> set old') cols) \<subseteq> set (tbl_fields s)))
           \<and> tables db' = (tables db)(tid \<mapsto>
                \<lparr>tbl_fields = cols,
                 tbl_rows = migrated_rows cols (filter (\<lambda>col. col \<in> set old') cols)
                              (the (tables db tid))\<rparr>)"
    by (rule update_table_Inr)
  from cat cat' have old': "old' = old" by simp
  from ne have "set old \<noteq> {}" by simp
  with disjoint have "set cols \<noteq> set old" by auto
  moreover from disjoint have "filter (\<lambda>col. col \<in> set old) cols = []"
    by (auto simp: filter_empty_conv)
  ultimately show ?thesis
    using differ old' by (simp add: migrated_rows_def)
qed

text \<open>The table \<open>fridge\<close>, which holds one row, gets two columns it did not have and
  loses the two it had.\<close>

theorem disjoint_migration_discards_rows_witness:
  "tables fridge_database ''fridge''
     = Some \<lparr>tbl_fields = [''item'', ''amount''], tbl_rows = [milk_row]\<rparr>
   \<and> (\<exists>t'. tables (snd (update_table None ''fridge'' ''Fridge'' [''name'', ''quantity'']
            [''Name'', ''Quantity''] fridge_database)) ''fridge'' = Some t'
        \<and> tbl_fields t' = [''name'', ''quantity''] \<and> tbl_rows t' = [])"
proof -
  let ?cols = "[''name'', ''quantity'']"
  let ?old = "[''item'', ''amount'']"
  let ?u = "update_table None ''fridge'' ''Fridge'' ?cols [''Name'', ''Quantity'']
              fridge_database"
  have "fst ?u = Inr True"
    by (simp add: update_table_def update_table_body_def restructure_def action_defs
        statement_defs example_defs)
  then have run: "?u = (Inr True, snd ?u)"
    by (metis prod.collapse)
  have cat: "catalog_columns fridge_database ''fridge'' = Some ?old"
    by (simp add: catalog_columns_def example_defs)
  have ne: "?old \<noteq> ([] :: string list)" by simp
  have disjoint: "set ?cols \<inter> set ?old = {}" by simp
  have "tables fridge_database ''fridge''
     = Some \<lparr>tbl_fields = [''item'', ''amount''], tbl_rows = [milk_row]\<rparr>"
    by (simp add: fridge_database_def)
  with disjoint_migration_discards_rows [OF run cat ne disjoint] show ?thesis
    by simp
qed

section \<open>An edit that keeps the column set\<close>

lemma update_table_same_set_succeeds:
  assumes cat: "catalog_columns db tid = Some old" and same: "set cols = set old"
  shows "fst (update_table None tid name cols dcols db) = Inr True"
proof -
  from cat obtain es where es: "table_settings db = Some es"
    and found: "map_option columns (find (\<lambda>s. table_id s = tid) es) = Some old"
    by (auto simp: catalog_columns_def split: option.splits)
  have q: "select_columns tid db = Inr (Some old)"
    using es found by (simp add: select_columns_def)
  show ?thesis
    using q es same
    by (simp add: update_table_def update_table_body_def try_rollback_close_def and_then_def
        query_def execute_def commit_def return_def get_db_connection_def close_def
        update_setting_def Let_def)
qed

text \<open>
  \<^bold>\<open>C6.\<close> When the new columns are, as a set, the columns the catalog holds for the table
  (in any order), \<open>update_table\<close> leaves every data table as it was, whether it succeeds
  or raises; when it succeeds, the database differs from the one before only in the
  catalog row of the table, which gets the new display name, column list and label list;
  and it succeeds whenever the engine does not fail.
\<close>

theorem same_column_set_touches_catalog_only:
  assumes cat: "catalog_columns db tid = Some old" and same: "set cols = set old"
  shows "tables (snd (update_table fault tid name cols dcols db)) = tables db
     \<and> (\<forall>ok db'. update_table fault tid name cols dcols db = (Inr ok, db') \<longrightarrow>
           db' = db\<lparr>table_settings := map_option (map (\<lambda>s. if table_id s = tid
                  then s\<lparr>table_name := name, columns := cols, display_columns := dcols\<rparr>
                  else s)) (table_settings db)\<rparr>)
     \<and> fst (update_table None tid name cols dcols db) = Inr True"
proof -
  let ?new = "db\<lparr>table_settings := map_option (map (\<lambda>s. if table_id s = tid
                  then s\<lparr>table_name := name, columns := cols, display_columns := dcols\<rparr>
                  else s)) (table_settings db)\<rparr>"
  have success: "db' = ?new" if run: "update_table fault tid name cols dcols db = (Inr ok, db')"
    for ok db'
  proof -
    from run obtain old' es where cat': "catalog_columns db tid = Some old'"
      and es: "table_settings db = Some es"
      and keep: "set cols = set old' \<longrightarrow>
           db' = db\<lparr>table_settings := Some (map (\<lambda>s. if table_id s = tid
             then s\<lparr>table_name := name, columns := cols, display_columns := dcols\<rparr>
             else s) es)\<rparr>"
      and "set cols \<noteq> set old' \<longrightarrow> distinct cols \<and> cols \<noteq> []
           \<and> (filter (\<lambda>col. col \<in> set old') cols \<noteq> [] \<longrightarrow>
                (\<exists>s. tables db tid = Some s
                  \<and> set (filter (\<lambda>col. col \<in> set old') cols) \<subseteq> set (tbl_fields s)))
           \<and> tables db' = (tables db)(tid \<mapsto>
                \<lparr>tbl_fields = cols,
                 tbl_rows = migrated_rows cols (filter (\<lambda>col. col \<in> set old') cols)
                              (the (tables db tid))\<rparr>)"
      by (rule update_table_Inr)
    from cat cat' have "old' = old" by simp
    with keep same es show ?thesis by simp
  qed
  have frame: "tables (snd (update_table fault tid name cols dcols db)) = tables db"
  proof (cases "update_table fault tid name cols dcols db")
    case (Pair r db')
    show ?thesis
    proof (cases r)
      case (Inl e)
      with Pair have "db' = db" by (simp add: update_table_failed)
      with Pair show ?thesis by simp
    next
      case (Inr ok)
      with Pair have "db' = ?new" by (simp add: success)
      with Pair show ?thesis by simp
    qed
  qed
  from frame success update_table_same_set_succeeds [OF cat same] show ?thesis
    by blast
qed

text \<open>The labels and the order of the two columns of \<open>fridge\<close> change; the engine fails
  or not.\<close>

theorem same_column_set_touches_catalog_only_witness:
  "tables (snd (update_table None ''fridge'' ''Cooler'' [''amount'', ''item''] [''Qty'', ''What'']
       fridge_database)) = tables fridge_database
   \<and> update_table None ''fridge'' ''Cooler'' [''amount'', ''item''] [''Qty'', ''What'']
       fridge_database
     = (Inr True, fridge_database\<lparr>table_settings := Some [pantry_setting,
          fridge_setting\<lparr>table_name := ''Cooler'', columns := [''amount'', ''item''],
            display_columns := [''Qty'', ''What'']\<rparr>]\<rparr>)
   \<and> tables (snd (update_table (Some 2) ''fridge'' ''Cooler'' [''amount'', ''item'']
       [''Qty'', ''What''] fridge_database)) = tables fridge_database"
proof -
  let ?cols = "[''amount'', ''item'']"
  let ?u = "update_table None ''fridge'' ''Cooler'' ?cols [''Qty'', ''What''] fridge_database"
  have cat: "catalog_columns fridge_database ''fridge'' = Some [''item'', ''amount'']"
    by (simp add: catalog_columns_def example_defs)
  have same: "set ?cols = set [''item'', ''amount'']" by auto
  note T = same_column_set_touches_catalog_only [OF cat same]
  have fu: "fst ?u = Inr True"
    by (rule T [THEN conjunct2, THEN conjunct2])
  then have run: "?u = (Inr True, snd ?u)"
    by (metis prod.collapse)
  have "snd ?u = fridge_database\<lparr>table_settings :=
      map_option (map (\<lambda>s. if table_id s = ''fridge''
                  then s\<lparr>table_name := ''Cooler'', columns := ?cols, display_columns := [''Qty'', ''What'']\<rparr>
                  else s)) (table_settings fridge_database)\<rparr>"
    by (rule T [of None "''Cooler''" "[''Qty'', ''What'']", THEN conjunct2, THEN conjunct1,
          rule_format, OF run])
  also have "\<dots> = fridge_database\<lparr>table_settings := Some [pantry_setting,
          fridge_setting\<lparr>table_name := ''Cooler'', columns := ?cols,
            display_columns := [''Qty'', ''What'']\<rparr>]\<rparr>"
    by (simp add: fridge_database_def pantry_setting_def fridge_setting_def)
  finally have su: "snd ?u = fridge_database\<lparr>table_settings := Some [pantry_setting,
          fridge_setting\<lparr>table_name := ''Cooler'', columns := ?cols,
            display_columns := [''Qty'', ''What'']\<rparr>]\<rparr>" .
  have full: "?u = (Inr True, fridge_database\<lparr>table_settings := Some [pantry_setting,
          fridge_setting\<lparr>table_name := ''Cooler'', columns := ?cols,
            display_columns := [''Qty'', ''What'']\<rparr>]\<rparr>)"
    using run unfolding su .
  show ?thesis
    by (intro conjI) (rule T [THEN conjunct1] full)+
qed

section \<open>The first start\<close>

lemmas init_defs =
  init_database_def init_database_body_def ensure_order_column_def default_tables_def
  ensure_pantry_first_def ensure_pantry_first_body_def

text \<open>
  \<^bold>\<open>C9.\<close> The claim gives the seeded tables the columns \<open>{item, date_of_purchase, amount}\<close>
  and \<open>{item, date_of_purchase, weight, amount}\<close>. On the empty database the catalog that
  \<open>init_database\<close> writes names the second column \<open>dateofpurchase\<close> in both rows, the
  identifier the rest of the program looks for when it sorts and formats dates.
\<close>

theorem init_database_columns_counterexample:
  "map_option (map columns)
     (table_settings (snd (init_database None None empty_database)))
     = Some [[''item'', ''dateofpurchase'', ''amount''],
             [''item'', ''dateofpurchase'', ''weight'', ''amount'']]
   \<and> set [''item'', ''dateofpurchase'', ''amount'']
       \<noteq> {''item'', ''date_of_purchase'', ''amount''}
   \<and> set [''item'', ''dateofpurchase'', ''weight'', ''amount'']
       \<noteq> {''item'', ''date_of_purchase'', ''weight'', ''amount''}"
  by (simp add: init_defs action_defs statement_defs empty_database_def) 

text \<open>
  \<^bold>\<open>C9, amended.\<close> When the engine does not fail and the database has no catalog or an
  empty one, and no table named \<open>pantry\<close>, \<open>basement_freezer\<close> or \<open>table_settings\<close>,
  \<open>init_database\<close> returns with a catalog of exactly two rows: \<open>pantry\<close> (\<open>Pantry\<close>) with
  the columns \<open>item, dateofpurchase, amount\<close> at rank 0 and \<open>basement_freezer\<close>
  (\<open>Basement Freezer\<close>) with the columns \<open>item, dateofpurchase, weight, amount\<close> at
  rank 1; each has a new data table with those columns and no row, and every other
  table is as it was.
\<close>

theorem init_database_seeds_defaults:
  assumes "table_settings db = None \<or> table_settings db = Some []"
    and "tables db ''pantry'' = None" and "tables db ''basement_freezer'' = None"
    and "tables db ''table_settings'' = None"
  shows "init_database None None db = (Inr (),
     \<lparr>table_settings = Some
        [\<lparr>table_id = ''pantry'', table_name = ''Pantry'',
          columns = [''item'', ''dateofpurchase'', ''amount''],
          display_columns = [''Item'', ''Date of Purchase'', ''Amount''],
          display_order = 0\<rparr>,
         \<lparr>table_id = ''basement_freezer'', table_name = ''Basement Freezer'',
          columns = [''item'', ''dateofpurchase'', ''weight'', ''amount''],
          display_columns = [''Item'', ''Date of Purchase'', ''Weight'', ''Amount''],
          display_order = 1\<rparr>],
      order_column = True,
      tables = (tables db)
        (''pantry'' \<mapsto> \<lparr>tbl_fields = [''item'', ''dateofpurchase'', ''amount''], tbl_rows = []\<rparr>,
         ''basement_freezer'' \<mapsto>
            \<lparr>tbl_fields = [''item'', ''dateofpurchase'', ''weight'', ''amount''], tbl_rows = []\<rparr>)\<rparr>)"
proof (cases "table_settings db")
  case None
  with assms(2-4) show ?thesis
    by (cases db) (simp add: init_defs action_defs statement_defs)
next
  case (Some es)
  with assms(1) have es: "table_settings db = Some []" by simp
  show ?thesis
  proof (cases "order_column db")
    case True
    with es assms(2-4) show ?thesis
      by (cases db) (simp add: init_defs action_defs statement_defs)
  next
    case False
    with es assms(2-4) show ?thesis
      by (cases db) (simp add: init_defs action_defs statement_defs)
  qed
qed

text \<open>The first start: the database is empty.\<close>

theorem init_database_seeds_defaults_witness:
  "init_database None None empty_database = (Inr (),
     \<lparr>table_settings = Some
        [\<lparr>table_id = ''pantry'', table_name = ''Pantry'',
          columns = [''item'', ''dateofpurchase'', ''amount''],
          display_columns = [''Item'', ''Date of Purchase'', ''Amount''],
          display_order = 0\<rparr>,
         \<lparr>table_id = ''basement_freezer'', table_name = ''Basement Freezer'',
          columns = [''item'', ''dateofpurchase'', ''weight'', ''amount''],
          display_columns = [''Item'', ''Date of Purchase'', ''Weight'', ''Amount''],
          display_order = 1\<rparr>],
      order_column = True,
      tables =
        [''pantry'' \<mapsto> \<lparr>tbl_fields = [''item'', ''dateofpurchase'', ''amount''], tbl_rows = []\<rparr>,
         ''basement_freezer'' \<mapsto>
            \<lparr>tbl_fields = [''item'', ''dateofpurchase'', ''weight'', ''amount''], tbl_rows = []\<rparr>]\<rparr>)"
proof -
  have h1: "table_settings empty_database = None \<or> table_settings empty_database = Some []"
    and h2: "tables empty_database ''pantry'' = None"
    and h3: "tables empty_database ''basement_freezer'' = None"
    and h4: "tables empty_database ''table_settings'' = None"
    by (simp_all add: empty_database_def)
  have t: "tables empty_database = Map.empty"
    by (simp add: empty_database_def)
  show ?thesis
    using init_database_seeds_defaults [OF h1 h2 h3 h4] unfolding t .
qed

section \<open>Labels that derive the same identifier twice\<close>


lemma set_split_comma: "w \<in> set (split_comma s) \<Longrightarrow> set w \<subseteq> set s"
proof (induction s arbitrary: w)
  case Nil
  then show ?case by simp
next
  case (Cons c cs)
  show ?case
  proof (cases "c = CHR '',''")
    case True
    with Cons.prems have "w = [] \<or> w \<in> set (split_comma cs)" by simp
    with Cons.IH show ?thesis by auto
  next
    case False
    show ?thesis
    proof (cases "split_comma cs")
      case Nil
      with False Cons.prems show ?thesis by simp
    next
      case (Cons w1 ws)
      with False Cons.prems have "w = c # w1 \<or> w \<in> set ws" by simp
      then show ?thesis
      proof
        assume "w = c # w1"
        moreover from Cons have "w1 \<in> set (split_comma cs)" by simp
        ultimately show ?thesis using Cons.IH [of w1] by auto
      next
        assume "w \<in> set ws"
        with Cons have "w \<in> set (split_comma cs)" by simp
        with Cons.IH [of w] show ?thesis by auto
      qed
    qed
  qed
qed

text \<open>On ASCII labels the derived identifiers are those of the methods cut down to
  ASCII, whatever Python does beyond ASCII.\<close>

lemma derived_ascii:
  assumes py: "ascii_faithful py" and l: "list_all is_ascii labels"
  shows "map (strip py) (split_comma labels) = map (strip ascii_python) (split_comma labels)"
    and "map (column_name py) (map (strip ascii_python) (split_comma labels))
          = map (column_name ascii_python) (map (strip ascii_python) (split_comma labels))"
proof -
  have piece: "list_all is_ascii w" if "w \<in> set (split_comma labels)" for w
    using set_split_comma [OF that] l by (auto simp: list_all_iff)
  show "map (strip py) (split_comma labels) = map (strip ascii_python) (split_comma labels)"
  proof (rule map_cong [OF refl])
    fix w assume "w \<in> set (split_comma labels)"
    then show "strip py w = strip ascii_python w"
      using py piece by (simp add: strip_ascii)
  qed
  show "map (column_name py) (map (strip ascii_python) (split_comma labels))
          = map (column_name ascii_python) (map (strip ascii_python) (split_comma labels))"
  proof (rule map_cong [OF refl])
    fix d assume "d \<in> set (map (strip ascii_python) (split_comma labels))"
    then obtain w where w: "w \<in> set (split_comma labels)" and d: "d = strip ascii_python w"
      by auto
    from piece [OF w] set_strip [of ascii_python w] have "list_all is_ascii d"
      unfolding d by (auto simp: list_all_iff)
    with py show "column_name py d = column_name ascii_python d"
      by (rule column_name_ascii)
  qed
qed

text \<open>So do the routes on ASCII form fields.\<close>

lemma routes_ascii:
  assumes py: "ascii_faithful py"
    and a: "list_all is_ascii form_id" and b: "list_all is_ascii form_name"
    and l: "list_all is_ascii labels"
  shows "add_table py fault form_id form_name labels db
           = add_table ascii_python fault form_id form_name labels db"
    and "edit_table py fault form_id form_name labels db
           = edit_table ascii_python fault form_id form_name labels db"
proof -
  have e1: "strip py form_id = strip ascii_python form_id"
    using py a by (rule strip_ascii)
  have e2: "strip py form_name = strip ascii_python form_name"
    using py b by (rule strip_ascii)
  note e3 = derived_ascii(1) [OF py l] and e4 = derived_ascii(2) [OF py l]
  show "add_table py fault form_id form_name labels db
           = add_table ascii_python fault form_id form_name labels db"
    by (simp only: add_table_def Let_def e1 e2 e3 e4)
  show "edit_table py fault form_id form_name labels db
           = edit_table ascii_python fault form_id form_name labels db"
    by (simp only: edit_table_def Let_def e1 e2 e3 e4)
qed

lemma strip_fridge: "strip ascii_python ''fridge'' = ''fridge''"
  by (simp add: strip_def ascii_python_def ascii_isspace_def)

lemma strip_Fridge: "strip ascii_python ''Fridge'' = ''Fridge''"
  by (simp add: strip_def ascii_python_def ascii_isspace_def)

lemma item_item_amount_labels:
  "map (strip ascii_python) (split_comma ''Item,item,Amount'') = [''Item'', ''item'', ''Amount'']"
  by (simp add: strip_def ascii_python_def ascii_isspace_def)

lemma item_item_amount_names:
  "map (column_name ascii_python) [''Item'', ''item'', ''Amount'']
     = [''item'', ''item'', ''amount'']"
  by (simp only: list.map column_name_ascii_python_eq) (simp add: label_defs)

lemmas item_item_amount = item_item_amount_labels item_item_amount_names

lemma edit_table_duplicate_ascii:
  "edit_table ascii_python None ''fridge'' ''Fridge'' ''Item,item,Amount'' fridge_database
     = (Updated_successfully ''Fridge'',
        fridge_database\<lparr>table_settings := Some [pantry_setting,
          fridge_setting\<lparr>columns := [''item'', ''item'', ''amount''],
            display_columns := [''Item'', ''item'', ''Amount'']\<rparr>]\<rparr>)"
proof -
  have upd: "update_table None ''fridge'' ''Fridge'' [''item'', ''item'', ''amount'']
        [''Item'', ''item'', ''Amount''] fridge_database
     = (Inr True,
        fridge_database\<lparr>table_settings := Some [pantry_setting,
          fridge_setting\<lparr>columns := [''item'', ''item'', ''amount''],
            display_columns := [''Item'', ''item'', ''Amount'']\<rparr>]\<rparr>)"
    by (simp add: update_table_def update_table_body_def restructure_def action_defs
        statement_defs example_defs)
  show ?thesis
    by (simp only: edit_table_def Let_def item_item_amount strip_fridge strip_Fridge upd) simp
qed

text \<open>The same run with Python's own methods: the form fields are ASCII.\<close>

lemma edit_table_duplicate_python:
  assumes "ascii_faithful py"
  shows "edit_table py None ''fridge'' ''Fridge'' ''Item,item,Amount'' fridge_database
     = (Updated_successfully ''Fridge'',
        fridge_database\<lparr>table_settings := Some [pantry_setting,
          fridge_setting\<lparr>columns := [''item'', ''item'', ''amount''],
            display_columns := [''Item'', ''item'', ''Amount'']\<rparr>]\<rparr>)"
proof -
  have a: "list_all is_ascii ''fridge''" and b: "list_all is_ascii ''Fridge''"
    and l: "list_all is_ascii ''Item,item,Amount''"
    by (simp_all add: is_ascii_def)
  show ?thesis
    by (simp only: routes_ascii(2) [OF assms a b l] edit_table_duplicate_ascii)
qed


text \<open>The labels \<open>Item,item\<close> derive \<open>item\<close> twice, with Python's own methods too.\<close>

lemma item_item_labels:
  "map (strip ascii_python) (split_comma ''Item,item'') = [''Item'', ''item'']"
  by (simp add: strip_def ascii_python_def ascii_isspace_def)

lemma item_item_names:
  "map (column_name ascii_python) [''Item'', ''item''] = [''item'', ''item'']"
  by (simp only: list.map column_name_ascii_python_eq) (simp add: label_defs)

lemma item_item_python:
  assumes "ascii_faithful py"
  shows "map (column_name py) (map (strip py) (split_comma ''Item,item'')) = [''item'', ''item'']"
proof -
  have l: "list_all is_ascii ''Item,item''" by (simp add: is_ascii_def)
  have "map (column_name py) (map (strip py) (split_comma ''Item,item''))
      = map (column_name py) (map (strip ascii_python) (split_comma ''Item,item''))"
    by (simp only: derived_ascii(1) [OF assms l])
  also have "\<dots> = map (column_name ascii_python)
      (map (strip ascii_python) (split_comma ''Item,item''))"
    by (rule derived_ascii(2) [OF assms l])
  also have "\<dots> = [''item'', ''item'']"
    by (simp only: item_item_labels item_item_names)
  finally show ?thesis .
qed



end
